theory Spec2Isabelle
  imports Main "HOL-Library.Word"
begin

section \<open>Go library functions used by the repository\<close>

text \<open>
  Go strings are byte sequences and \<^verbatim>\<open>len\<close> counts bytes, so a Go string is a
  \<^typ>\<open>string\<close> (a list of 8-bit characters) and \<^verbatim>\<open>len\<close> is \<^const>\<open>length\<close>.

  \<^verbatim>\<open>strings.TrimSpace\<close> removes the leading and the trailing white space "as defined by
  Unicode": the code points U+0009..U+000D, U+0020, U+0085, U+00A0, U+1680,
  U+2000..U+200A, U+2028, U+2029, U+202F, U+205F and U+3000, each in its UTF-8 encoding.
  A byte that does not start a valid encoding of one of them stops the trimming.
\<close>

definition isSpace1 :: "nat \<Rightarrow> bool" where
  \<comment> \<open>U+0009..U+000D and U+0020, one byte each\<close>
  "isSpace1 b0 \<longleftrightarrow> 9 \<le> b0 \<and> b0 \<le> 13 \<or> b0 = 32"

definition isSpace2 :: "nat \<Rightarrow> nat \<Rightarrow> bool" where
  \<comment> \<open>U+0085 and U+00A0, two bytes each\<close>
  "isSpace2 b0 b1 \<longleftrightarrow> b0 = 0xC2 \<and> (b1 = 0x85 \<or> b1 = 0xA0)"

definition isSpace3 :: "nat \<Rightarrow> nat \<Rightarrow> nat \<Rightarrow> bool" where
  \<comment> \<open>U+1680, U+2000..U+200A, U+2028, U+2029, U+202F, U+205F and U+3000, three bytes each\<close>
  "isSpace3 b0 b1 b2 \<longleftrightarrow>
     b0 = 0xE1 \<and> b1 = 0x9A \<and> b2 = 0x80
     \<or> b0 = 0xE2 \<and> b1 = 0x80 \<and> (0x80 \<le> b2 \<and> b2 \<le> 0x8A \<or> b2 = 0xA8 \<or> b2 = 0xA9 \<or> b2 = 0xAF)
     \<or> b0 = 0xE2 \<and> b1 = 0x81 \<and> b2 = 0x9F
     \<or> b0 = 0xE3 \<and> b1 = 0x80 \<and> b2 = 0x80"

fun spaceWidthBytes :: "nat list \<Rightarrow> nat" where
  "spaceWidthBytes (b0 # b1 # b2 # _) =
     (if isSpace1 b0 then 1 else if isSpace2 b0 b1 then 2 else if isSpace3 b0 b1 b2 then 3 else 0)"
| "spaceWidthBytes [b0, b1] = (if isSpace1 b0 then 1 else if isSpace2 b0 b1 then 2 else 0)"
| "spaceWidthBytes [b0] = (if isSpace1 b0 then 1 else 0)"
| "spaceWidthBytes [] = 0"

definition spaceWidth :: "string \<Rightarrow> nat" where
  \<comment> \<open>the number of bytes of the white-space code point encoded at the start of the
      string, 0 when the string does not start with one\<close>
  "spaceWidth s = spaceWidthBytes (map of_char s)"

definition trailingSpaceWidth :: "string \<Rightarrow> nat" where
  \<comment> \<open>the same for the code point encoded at the end of the string\<close>
  "trailingSpaceWidth s =
     (case filter (\<lambda>w. w \<le> length s \<and> spaceWidth (drop (length s - w) s) = w) [1, 2, 3] of
        [] \<Rightarrow> 0
      | w # _ \<Rightarrow> w)"

function trimLeft :: "string \<Rightarrow> string" where
  "trimLeft s = (if spaceWidth s = 0 then s else trimLeft (drop (spaceWidth s) s))"
  by pat_completeness auto
termination
proof (relation "measure length")
  show "wf (measure length)" by simp
next
  fix s :: string
  assume "spaceWidth s \<noteq> 0"
  moreover have "spaceWidthBytes bs \<le> length bs" for bs
    by (cases bs rule: spaceWidthBytes.cases) simp_all
  then have "spaceWidth s \<le> length s"
    using spaceWidth_def [of s] length_map [of of_char s] by metis
  ultimately show "(drop (spaceWidth s) s, s) \<in> measure length" by simp
qed

function trimRight :: "string \<Rightarrow> string" where
  "trimRight s =
     (if trailingSpaceWidth s = 0 then s
      else trimRight (take (length s - trailingSpaceWidth s) s))"
  by pat_completeness auto
termination
proof (relation "measure length")
  show "wf (measure length)" by simp
next
  fix s :: string
  let ?ws = "filter (\<lambda>w. w \<le> length s \<and> spaceWidth (drop (length s - w) s) = w) [1, 2, 3]"
  assume nz: "trailingSpaceWidth s \<noteq> 0"
  have "trailingSpaceWidth s \<le> length s"
  proof (cases ?ws)
    case Nil
    then show ?thesis by (simp add: trailingSpaceWidth_def)
  next
    case (Cons w ws)
    then have "w \<in> set ?ws" by simp
    then have "w \<le> length s" unfolding set_filter by simp
    with Cons show ?thesis by (simp add: trailingSpaceWidth_def)
  qed
  with nz show "(take (length s - trailingSpaceWidth s) s, s) \<in> measure length" by simp
qed

declare trimLeft.simps [simp del] trimRight.simps [simp del]

definition TrimSpace :: "string \<Rightarrow> string" where
  "TrimSpace s = trimRight (trimLeft s)"

definition all_whitespace :: "string \<Rightarrow> bool" where
  \<comment> \<open>the words "empty or all-whitespace": the string is a sequence of encoded
      white-space code points, possibly none\<close>
  "all_whitespace s \<longleftrightarrow>
     (\<exists>ws. (\<forall>w \<in> set ws. w \<noteq> [] \<and> spaceWidth w = length w) \<and> concat ws = s)"

section \<open>Entity model (package models)\<close>

text \<open>
  Go's \<^verbatim>\<open>int\<close> is a 64-bit two's complement integer on the platforms the project is
  built for; \<^verbatim>\<open>++\<close> wraps around. A \<^verbatim>\<open>time.Time\<close> is an instant, counted from the
  zero time: \<^verbatim>\<open>IsZero\<close> holds for 0 only. The clock reading \<^verbatim>\<open>time.Now()\<close> is a
  parameter \<open>now\<close> of every function that reads the clock.
\<close>

type_synonym Time = int

record Todo =
  ID :: "64 word"
  Title :: string
  Description :: string
  Completed :: bool
  CreatedAt :: Time
  UpdatedAt :: Time

datatype violation = EmptyTitle | TitleTooLong | DescriptionTooLong

datatype io_failure = MarshalFailed | WriteFailed | ReadFailed | UnmarshalFailed

datatype error =
    NilTodo
  | ValidationError violation
  | NotFoundError
  | IOError io_failure
  | InvalidID

text \<open>A Go \<^verbatim>\<open>error\<close> result is an \<^typ>\<open>error option\<close>: \<^const>\<open>None\<close> is \<^verbatim>\<open>nil\<close>.\<close>

definition ValidateTitle :: "Todo \<Rightarrow> error option" where
  "ValidateTitle t =
     (if TrimSpace (Title t) = [] then Some (ValidationError EmptyTitle)
      else if length (Title t) > 200 then Some (ValidationError TitleTooLong)
      else None)"

definition ValidateDescription :: "Todo \<Rightarrow> error option" where
  "ValidateDescription t =
     (if length (Description t) > 1000 then Some (ValidationError DescriptionTooLong)
      else None)"

definition Validate :: "Todo \<Rightarrow> error option" where
  "Validate t =
     (case ValidateTitle t of
        Some err \<Rightarrow> Some err
      | None \<Rightarrow>
          (case ValidateDescription t of
             Some err \<Rightarrow> Some err
           | None \<Rightarrow> None))"

definition SetTimestamps :: "Time \<Rightarrow> Todo \<Rightarrow> Todo" where
  "SetTimestamps now t =
     (let t1 = (if CreatedAt t = 0 then t\<lparr>CreatedAt := now\<rparr> else t)
      in t1\<lparr>UpdatedAt := now\<rparr>)"

section \<open>In-memory storage (package models)\<close>

record TodoStorage =
  Todos :: "Todo list"
  NextID :: "64 word"

definition NewTodoStorage :: TodoStorage where
  "NewTodoStorage = \<lparr>Todos = [], NextID = 1\<rparr>"

definition GenerateNextID :: "TodoStorage \<Rightarrow> 64 word \<times> TodoStorage" where
  "GenerateNextID ts = (NextID ts, ts\<lparr>NextID := NextID ts + 1\<rparr>)"

definition AddTodo :: "Time \<Rightarrow> Todo \<Rightarrow> TodoStorage \<Rightarrow> Todo \<times> TodoStorage" where
  "AddTodo now todo ts =
     (case GenerateNextID ts of
        (new_id, ts1) \<Rightarrow>
          let todo1 = SetTimestamps now (todo\<lparr>ID := new_id\<rparr>)
          in (todo1, ts1\<lparr>Todos := Todos ts1 @ [todo1]\<rparr>))"

fun findFrom :: "nat \<Rightarrow> Todo list \<Rightarrow> 64 word \<Rightarrow> (Todo \<times> nat) option" where
  \<comment> \<open>the \<^verbatim>\<open>for i, todo := range ts.Todos\<close> loop, entered at index \<open>i\<close>\<close>
  "findFrom i [] wanted = None"
| "findFrom i (todo # rest) wanted =
     (if ID todo = wanted then Some (todo, i) else findFrom (Suc i) rest wanted)"

definition FindTodoByID :: "TodoStorage \<Rightarrow> 64 word \<Rightarrow> error + Todo \<times> nat" where
  "FindTodoByID ts wanted =
     (case findFrom 0 (Todos ts) wanted of
        None \<Rightarrow> Inl NotFoundError
      | Some found \<Rightarrow> Inr found)"

definition UpdateTodo :: "Time \<Rightarrow> 64 word \<Rightarrow> Todo \<Rightarrow> TodoStorage \<Rightarrow> (error + Todo) \<times> TodoStorage" where
  "UpdateTodo now wanted updatedTodo ts =
     (case FindTodoByID ts wanted of
        Inl err \<Rightarrow> (Inl err, ts)
      | Inr (todo, index) \<Rightarrow>
          let u = updatedTodo\<lparr>ID := ID todo, CreatedAt := CreatedAt todo, UpdatedAt := now\<rparr>
          in (Inr u, ts\<lparr>Todos := (Todos ts)[index := u]\<rparr>))"

definition DeleteTodo :: "64 word \<Rightarrow> TodoStorage \<Rightarrow> error option \<times> TodoStorage" where
  "DeleteTodo wanted ts =
     (case FindTodoByID ts wanted of
        Inl err \<Rightarrow> (Some err, ts)
      | Inr (_, index) \<Rightarrow>
          (None, ts\<lparr>Todos := take index (Todos ts) @ drop (Suc index) (Todos ts)\<rparr>))"

definition GetAllTodos :: "TodoStorage \<Rightarrow> Todo list" where
  "GetAllTodos ts = Todos ts"

section \<open>The environment: file system and JSON library\<close>

text \<open>
  The repository touches the world through \<^verbatim>\<open>os.Stat\<close>, \<^verbatim>\<open>os.ReadFile\<close>,
  \<^verbatim>\<open>os.WriteFile\<close> and \<^verbatim>\<open>encoding/json\<close>. The file system maps a path to the bytes of
  the file stored there (\<^const>\<open>None\<close>: no such file); reading an existing file and
  writing a file can fail, for reasons the program does not control. A failed write is
  modelled as leaving the file as it was. The JSON library is not code of the
  repository: its two functions are parameters, each of which may fail.
\<close>

record os_state =
  files :: "string \<Rightarrow> string option"
  read_fails :: "string \<Rightarrow> bool"
  write_fails :: "string \<Rightarrow> bool"

record json =
  Marshal :: "TodoStorage \<Rightarrow> string option"
  Unmarshal :: "string \<Rightarrow> TodoStorage option"

definition WriteFile :: "string \<Rightarrow> string \<Rightarrow> os_state \<Rightarrow> error option \<times> os_state" where
  "WriteFile path data os =
     (if write_fails os path then (Some (IOError WriteFailed), os)
      else (None, os\<lparr>files := (files os)(path \<mapsto> data)\<rparr>))"

section \<open>File-based repository (package repository)\<close>

text \<open>
  The mutex of the repository is left out: the functions are modelled as they run one at
  a time. A \<^verbatim>\<open>*models.Todo\<close> argument is a \<^typ>\<open>Todo option\<close> (\<^const>\<open>None\<close>: the nil
  pointer); \<^verbatim>\<open>Create\<close> and \<^verbatim>\<open>Update\<close> write through the pointer, so they return the
  value it points to after the call, next to the error, the repository and the file
  system.
\<close>

record FileBasedTodoRepository =
  storage :: TodoStorage
  filePath :: string

definition NewFileBasedTodoRepository :: "string \<Rightarrow> FileBasedTodoRepository" where
  "NewFileBasedTodoRepository path = \<lparr>storage = NewTodoStorage, filePath = path\<rparr>"

definition Load :: "json \<Rightarrow> FileBasedTodoRepository \<Rightarrow> os_state
    \<Rightarrow> error option \<times> FileBasedTodoRepository" where
  "Load j r os =
     (case files os (filePath r) of
        None \<Rightarrow> (None, r\<lparr>storage := NewTodoStorage\<rparr>)
      | Some data \<Rightarrow>
          if read_fails os (filePath r) then (Some (IOError ReadFailed), r)
          else if length data = 0 then (None, r\<lparr>storage := NewTodoStorage\<rparr>)
          else
            (case Unmarshal j data of
               None \<Rightarrow> (Some (IOError UnmarshalFailed), r)
             | Some st \<Rightarrow> (None, r\<lparr>storage := st\<rparr>)))"

definition saveUnsafe :: "json \<Rightarrow> FileBasedTodoRepository \<Rightarrow> os_state
    \<Rightarrow> error option \<times> os_state" where
  "saveUnsafe j r os =
     (case Marshal j (storage r) of
        None \<Rightarrow> (Some (IOError MarshalFailed), os)
      | Some data \<Rightarrow> WriteFile (filePath r) data os)"

definition Save :: "json \<Rightarrow> FileBasedTodoRepository \<Rightarrow> os_state
    \<Rightarrow> error option \<times> os_state" where
  "Save j r os =
     (case Marshal j (storage r) of
        None \<Rightarrow> (Some (IOError MarshalFailed), os)
      | Some data \<Rightarrow> WriteFile (filePath r) data os)"

definition GetAll :: "FileBasedTodoRepository \<Rightarrow> Todo list" where
  "GetAll r = GetAllTodos (storage r)"

definition GetByID :: "FileBasedTodoRepository \<Rightarrow> 64 word \<Rightarrow> error + Todo" where
  "GetByID r wanted =
     (case FindTodoByID (storage r) wanted of
        Inl err \<Rightarrow> Inl NotFoundError
      | Inr (todo, _) \<Rightarrow> Inr todo)"

definition Create :: "json \<Rightarrow> Time \<Rightarrow> Todo option \<Rightarrow> FileBasedTodoRepository \<Rightarrow> os_state
    \<Rightarrow> error option \<times> Todo option \<times> FileBasedTodoRepository \<times> os_state" where
  "Create j now todo r os =
     (case todo of
        None \<Rightarrow> (Some NilTodo, None, r, os)
      | Some t \<Rightarrow>
          (case Validate t of
             Some err \<Rightarrow> (Some err, Some t, r, os)
           | None \<Rightarrow>
               (case AddTodo now t (storage r) of
                  (createdTodo, st) \<Rightarrow>
                    let r1 = r\<lparr>storage := st\<rparr>
                    in (case saveUnsafe j r1 os of
                          (Some err, os1) \<Rightarrow> (Some err, Some createdTodo, r1, os1)
                        | (None, os1) \<Rightarrow> (None, Some createdTodo, r1, os1)))))"

definition Update :: "json \<Rightarrow> Time \<Rightarrow> 64 word \<Rightarrow> Todo option \<Rightarrow> FileBasedTodoRepository
    \<Rightarrow> os_state \<Rightarrow> error option \<times> Todo option \<times> FileBasedTodoRepository \<times> os_state" where
  "Update j now wanted todo r os =
     (case todo of
        None \<Rightarrow> (Some NilTodo, None, r, os)
      | Some t \<Rightarrow>
          (case Validate t of
             Some err \<Rightarrow> (Some err, Some t, r, os)
           | None \<Rightarrow>
               (case UpdateTodo now wanted t (storage r) of
                  (Inl err, st) \<Rightarrow> (Some err, Some t, r\<lparr>storage := st\<rparr>, os)
                | (Inr updatedTodo, st) \<Rightarrow>
                    let r1 = r\<lparr>storage := st\<rparr>
                    in (case saveUnsafe j r1 os of
                          (Some err, os1) \<Rightarrow> (Some err, Some updatedTodo, r1, os1)
                        | (None, os1) \<Rightarrow> (None, Some updatedTodo, r1, os1)))))"

definition Delete :: "json \<Rightarrow> 64 word \<Rightarrow> FileBasedTodoRepository \<Rightarrow> os_state
    \<Rightarrow> error option \<times> FileBasedTodoRepository \<times> os_state" where
  "Delete j wanted r os =
     (case DeleteTodo wanted (storage r) of
        (Some err, st) \<Rightarrow> (Some err, r\<lparr>storage := st\<rparr>, os)
      | (None, st) \<Rightarrow>
          let r1 = r\<lparr>storage := st\<rparr>
          in (case saveUnsafe j r1 os of
                (Some err, os1) \<Rightarrow> (Some err, r1, os1)
              | (None, os1) \<Rightarrow> (None, r1, os1)))"

section \<open>Service layer (package service)\<close>

text \<open>
  The service wraps the errors of the repository in messages of its own; the model keeps
  the kind of the error. Its result is the returned record or the error.
\<close>

definition validateTodoInput :: "string \<Rightarrow> string \<Rightarrow> error option" where
  "validateTodoInput title description =
     (if TrimSpace title = [] then Some (ValidationError EmptyTitle)
      else if length title > 200 then Some (ValidationError TitleTooLong)
      else if length description > 1000 then Some (ValidationError DescriptionTooLong)
      else None)"

definition CreateTodo :: "json \<Rightarrow> Time \<Rightarrow> string \<Rightarrow> string \<Rightarrow> FileBasedTodoRepository
    \<Rightarrow> os_state \<Rightarrow> (error + Todo option) \<times> FileBasedTodoRepository \<times> os_state" where
  "CreateTodo j now title description r os =
     (case validateTodoInput title description of
        Some err \<Rightarrow> (Inl err, r, os)
      | None \<Rightarrow>
          let todo = \<lparr>ID = 0, Title = TrimSpace title, Description = TrimSpace description,
                      Completed = False, CreatedAt = 0, UpdatedAt = 0\<rparr>
          in (case Create j now (Some todo) r os of
                (Some err, _, r1, os1) \<Rightarrow> (Inl err, r1, os1)
              | (None, todo1, r1, os1) \<Rightarrow> (Inr todo1, r1, os1)))"

definition UpdateTodoService :: "json \<Rightarrow> Time \<Rightarrow> 64 word \<Rightarrow> string \<Rightarrow> string \<Rightarrow> bool
    \<Rightarrow> FileBasedTodoRepository \<Rightarrow> os_state
    \<Rightarrow> (error + Todo option) \<times> FileBasedTodoRepository \<times> os_state" where
  \<comment> \<open>\<^verbatim>\<open>TodoServiceImpl.UpdateTodo\<close>; the name \<^verbatim>\<open>UpdateTodo\<close> is taken by the storage\<close>
  "UpdateTodoService j now wanted title description completed r os =
     (if wanted \<le>s 0 then (Inl InvalidID, r, os)
      else
        (case validateTodoInput title description of
           Some err \<Rightarrow> (Inl err, r, os)
         | None \<Rightarrow>
             (case GetByID r wanted of
                Inl err \<Rightarrow> (Inl NotFoundError, r, os)
              | Inr existingTodo \<Rightarrow>
                  let updatedTodo =
                        \<lparr>ID = ID existingTodo, Title = TrimSpace title,
                         Description = TrimSpace description, Completed = completed,
                         CreatedAt = CreatedAt existingTodo, UpdatedAt = 0\<rparr>
                  in (case Update j now wanted (Some updatedTodo) r os of
                        (Some err, _, r1, os1) \<Rightarrow> (Inl err, r1, os1)
                      | (None, todo1, r1, os1) \<Rightarrow> (Inr todo1, r1, os1)))))"

section \<open>Start-up (package main)\<close>

definition emptyStorage :: string where
  \<comment> \<open>the document that \<^verbatim>\<open>initializeDataFile\<close> writes: the empty storage, indented by two spaces\<close>
  \<open>emptyStorage = ''{\<newline>  "todos": [],\<newline>  "next_id": 1\<newline>}''\<close>

definition initializeDataFile :: "string \<Rightarrow> os_state \<Rightarrow> error option \<times> os_state" where
  "initializeDataFile path os =
     (case files os path of
        Some _ \<Rightarrow> (None, os)
      | None \<Rightarrow> WriteFile path emptyStorage os)"

section \<open>What the JSON library does to a storage\<close>

text \<open>
  From the documentation of \<^verbatim>\<open>encoding/json\<close>: "String values encode as JSON strings
  coerced to valid UTF-8, replacing invalid bytes with the Unicode replacement rune."
  The encoder decodes the string with \<^verbatim>\<open>utf8.DecodeRuneInString\<close> and writes U+FFFD
  for every byte at which no valid encoding starts; all other bytes, numbers, booleans
  and the instants of the times come back from the document as they were. So what
  \<^verbatim>\<open>Unmarshal\<close> returns for a document of \<^verbatim>\<open>Marshal\<close> is the storage with its strings
  coerced. The layout of the document is left open: a library meets the contract when
  every document it writes is non-empty and is read back as the coerced storage.
\<close>

definition isCont :: "nat \<Rightarrow> bool" where
  \<comment> \<open>a continuation byte\<close>
  "isCont b \<longleftrightarrow> 0x80 \<le> b \<and> b \<le> 0xBF"

definition isRune1 :: "nat \<Rightarrow> bool" where
  \<comment> \<open>U+0000..U+007F\<close>
  "isRune1 b0 \<longleftrightarrow> b0 < 0x80"

definition isRune2 :: "nat \<Rightarrow> nat \<Rightarrow> bool" where
  \<comment> \<open>U+0080..U+07FF; the first bytes C0 and C1 would be overlong\<close>
  "isRune2 b0 b1 \<longleftrightarrow> 0xC2 \<le> b0 \<and> b0 \<le> 0xDF \<and> isCont b1"

definition isRune3 :: "nat \<Rightarrow> nat \<Rightarrow> nat \<Rightarrow> bool" where
  \<comment> \<open>U+0800..U+FFFF without the surrogates U+D800..U+DFFF\<close>
  "isRune3 b0 b1 b2 \<longleftrightarrow>
     (b0 = 0xE0 \<and> 0xA0 \<le> b1 \<and> b1 \<le> 0xBF
      \<or> (0xE1 \<le> b0 \<and> b0 \<le> 0xEC \<or> b0 = 0xEE \<or> b0 = 0xEF) \<and> isCont b1
      \<or> b0 = 0xED \<and> 0x80 \<le> b1 \<and> b1 \<le> 0x9F)
     \<and> isCont b2"

definition isRune4 :: "nat \<Rightarrow> nat \<Rightarrow> nat \<Rightarrow> nat \<Rightarrow> bool" where
  \<comment> \<open>U+10000..U+10FFFF\<close>
  "isRune4 b0 b1 b2 b3 \<longleftrightarrow>
     (b0 = 0xF0 \<and> 0x90 \<le> b1 \<and> b1 \<le> 0xBF
      \<or> 0xF1 \<le> b0 \<and> b0 \<le> 0xF3 \<and> isCont b1
      \<or> b0 = 0xF4 \<and> 0x80 \<le> b1 \<and> b1 \<le> 0x8F)
     \<and> isCont b2 \<and> isCont b3"

fun runeWidthBytes :: "nat list \<Rightarrow> nat" where
  "runeWidthBytes (b0 # b1 # b2 # b3 # _) =
     (if isRune1 b0 then 1 else if isRune2 b0 b1 then 2 else if isRune3 b0 b1 b2 then 3
      else if isRune4 b0 b1 b2 b3 then 4 else 0)"
| "runeWidthBytes [b0, b1, b2] =
     (if isRune1 b0 then 1 else if isRune2 b0 b1 then 2 else if isRune3 b0 b1 b2 then 3 else 0)"
| "runeWidthBytes [b0, b1] = (if isRune1 b0 then 1 else if isRune2 b0 b1 then 2 else 0)"
| "runeWidthBytes [b0] = (if isRune1 b0 then 1 else 0)"
| "runeWidthBytes [] = 0"

definition runeWidth :: "string \<Rightarrow> nat" where
  \<comment> \<open>the size that \<^verbatim>\<open>utf8.DecodeRuneInString\<close> returns for a valid encoding at the start of
      the string; 0 where it returns the error rune with size 1, or the string is empty\<close>
  "runeWidth s = runeWidthBytes (map of_char s)"

definition replacementChar :: string where
  \<comment> \<open>U+FFFD in UTF-8\<close>
  "replacementChar = [CHR 0xEF, CHR 0xBF, CHR 0xBD]"

function toValidUTF8 :: "string \<Rightarrow> string" where
  "toValidUTF8 s =
     (if s = [] then []
      else if runeWidth s = 0 then replacementChar @ toValidUTF8 (drop 1 s)
      else take (runeWidth s) s @ toValidUTF8 (drop (runeWidth s) s))"
  by pat_completeness auto
termination
  by (relation "measure length") auto

function validUTF8 :: "string \<Rightarrow> bool" where
  \<comment> \<open>the string is a sequence of valid encodings (\<^verbatim>\<open>utf8.ValidString\<close>)\<close>
  "validUTF8 s =
     (if s = [] then True
      else if runeWidth s = 0 then False
      else validUTF8 (drop (runeWidth s) s))"
  by pat_completeness auto
termination
  by (relation "measure length") auto

declare toValidUTF8.simps [simp del] validUTF8.simps [simp del]

definition jsonCoerce :: "TodoStorage \<Rightarrow> TodoStorage" where
  \<comment> \<open>the storage as it comes back from its document\<close>
  "jsonCoerce st =
     st\<lparr>Todos := map (\<lambda>t. t\<lparr>Title := toValidUTF8 (Title t),
                              Description := toValidUTF8 (Description t)\<rparr>) (Todos st)\<rparr>"

definition json_contract :: "json \<Rightarrow> bool" where
  "json_contract j \<longleftrightarrow>
     (\<forall>st data. Marshal j st = Some data \<longrightarrow>
        data \<noteq> [] \<and> Unmarshal j data = Some (jsonCoerce st))"

section \<open>Runs of the repository\<close>

text \<open>
  A run is a sequence of calls of \<^const>\<open>Create\<close>, \<^const>\<open>Update\<close> and \<^const>\<open>Delete\<close>, with
  any arguments, between which the environment may change the file system in any way.
\<close>

datatype op =
    OpCreate "Todo option" Time
  | OpUpdate "64 word" "Todo option" Time
  | OpDelete "64 word"
  | OpEnv os_state

fun exec :: "json \<Rightarrow> op \<Rightarrow> FileBasedTodoRepository \<times> os_state
    \<Rightarrow> FileBasedTodoRepository \<times> os_state" where
  "exec j (OpCreate todo now) (r, os) =
     (case Create j now todo r os of (_, _, r1, os1) \<Rightarrow> (r1, os1))"
| "exec j (OpUpdate wanted todo now) (r, os) =
     (case Update j now wanted todo r os of (_, _, r1, os1) \<Rightarrow> (r1, os1))"
| "exec j (OpDelete wanted) (r, os) =
     (case Delete j wanted r os of (_, r1, os1) \<Rightarrow> (r1, os1))"
| "exec j (OpEnv os1) (r, os) = (r, os1)"

fun run :: "json \<Rightarrow> op list \<Rightarrow> FileBasedTodoRepository \<times> os_state
    \<Rightarrow> FileBasedTodoRepository \<times> os_state" where
  "run j [] s = s"
| "run j (x # xs) s = run j xs (exec j x s)"

fun trace :: "json \<Rightarrow> op list \<Rightarrow> FileBasedTodoRepository \<times> os_state
    \<Rightarrow> (FileBasedTodoRepository \<times> os_state) list" where
  \<comment> \<open>every state the run goes through, the first and the last included\<close>
  "trace j [] s = [s]"
| "trace j (x # xs) s = s # trace j xs (exec j x s)"

fun isCreate :: "op \<Rightarrow> bool" where
  "isCreate (OpCreate _ _) = True"
| "isCreate _ = False"

definition creates :: "op list \<Rightarrow> nat" where
  "creates ops = length (filter isCreate ops)"

definition well_numbered :: "TodoStorage \<Rightarrow> bool" where
  \<comment> \<open>the identifiers of the collection are pairwise distinct and below the next id\<close>
  "well_numbered ts \<longleftrightarrow>
     distinct (map ID (Todos ts)) \<and> (\<forall>t \<in> set (Todos ts). ID t <s NextID ts)"

section \<open>Concrete inputs\<close>

text \<open>
  Values on which the functions are run below: a file system with no file where every
  read and write succeeds, one where every write fails, some records, and a stand-in for
  the JSON library that knows two documents: the empty storage as \<^verbatim>\<open>main.go\<close> writes it and
  a storage of one record (any other storage is encoded as a document that the stand-in
  does not decode).
\<close>

definition emptyDisk :: os_state where
  "emptyDisk = \<lparr>files = (\<lambda>_. None), read_fails = (\<lambda>_. False), write_fails = (\<lambda>_. False)\<rparr>"

definition fullDisk :: os_state where
  "fullDisk = \<lparr>files = (\<lambda>_. None), read_fails = (\<lambda>_. False), write_fails = (\<lambda>_. True)\<rparr>"

definition groceries :: Todo where
  "groceries = \<lparr>ID = 0, Title = ''Buy groceries'', Description = ''Milk, bread, eggs'',
                Completed = False, CreatedAt = 0, UpdatedAt = 0\<rparr>"

definition untitled :: Todo where
  "untitled = \<lparr>ID = 0, Title = [], Description = ''x'',
               Completed = False, CreatedAt = 0, UpdatedAt = 0\<rparr>"

definition backdated :: Todo where
  \<comment> \<open>a draft that arrives with its own identifier and creation time\<close>
  "backdated = \<lparr>ID = 42, Title = ''Buy groceries'', Description = ''and cheese'',
                Completed = True, CreatedAt = 5, UpdatedAt = 6\<rparr>"

definition todosFile :: string where
  "todosFile = ''todos.json''"

definition storedGroceries :: Todo where
  \<comment> \<open>\<^const>\<open>groceries\<close> as a first record created at time 3\<close>
  "storedGroceries = groceries\<lparr>ID := 1, CreatedAt := 3, UpdatedAt := 3\<rparr>"

definition oneTodo :: FileBasedTodoRepository where
  "oneTodo = \<lparr>storage = \<lparr>Todos = [storedGroceries], NextID = 2\<rparr>, filePath = todosFile\<rparr>"

definition oneTodoDocument :: string where
  \<comment> \<open>the storage of \<^const>\<open>oneTodo\<close> as \<^verbatim>\<open>json.MarshalIndent\<close> lays it out, the times written
      as instants after the zero time\<close>
  \<open>oneTodoDocument =
     ''{\<newline>  "todos": [\<newline>    {\<newline>      "id": 1,\<newline>      "title": "Buy groceries",\<newline>'' @
     ''      "description": "Milk, bread, eggs",\<newline>      "completed": false,\<newline>'' @
     ''      "created_at": "0001-01-01T00:00:00.000000003Z",\<newline>'' @
     ''      "updated_at": "0001-01-01T00:00:00.000000003Z"\<newline>    }\<newline>  ],\<newline>'' @
     ''  "next_id": 2\<newline>}''\<close>

definition standInJSON :: json where
  "standInJSON =
     \<lparr>Marshal = (\<lambda>st. if st = NewTodoStorage then Some emptyStorage
                      else if st = storage oneTodo then Some oneTodoDocument
                      else Some ''{...}''),
      Unmarshal = (\<lambda>data. if data = emptyStorage then Some NewTodoStorage
                         else if data = oneTodoDocument then Some (storage oneTodo)
                         else None)\<rparr>"

definition paddedTitle :: string where
  \<comment> \<open>201 bytes that trim to one letter\<close>
  "paddedTitle = replicate 150 (CHR '' '') @ ''a'' @ replicate 50 (CHR '' '')"

text \<open>
  A codec that meets the contract, with a layout of its own: the coerced storage field by
  field, lengths and numbers in unary. The layout of the library's documents plays no
  part in what follows.
\<close>

definition encNat :: "nat \<Rightarrow> string" where
  "encNat n = replicate n (CHR ''1'') @ ''0''"

definition decNat :: "string \<Rightarrow> (nat \<times> string) option" where
  "decNat s =
     (case dropWhile (\<lambda>c. c = CHR ''1'') s of
        [] \<Rightarrow> None
      | _ # rest \<Rightarrow> Some (length (takeWhile (\<lambda>c. c = CHR ''1'') s), rest))"

definition encInt :: "int \<Rightarrow> string" where
  "encInt i = (if i < 0 then CHR ''-'' else CHR ''+'') # encNat (nat \<bar>i\<bar>)"

definition decInt :: "string \<Rightarrow> (int \<times> string) option" where
  "decInt s =
     (case s of
        [] \<Rightarrow> None
      | c # r \<Rightarrow>
          (case decNat r of
             None \<Rightarrow> None
           | Some (n, rest) \<Rightarrow> Some (if c = CHR ''-'' then - int n else int n, rest)))"

definition encString :: "string \<Rightarrow> string" where
  "encString s = encNat (length s) @ s"

definition decString :: "string \<Rightarrow> (string \<times> string) option" where
  "decString s =
     (case decNat s of
        None \<Rightarrow> None
      | Some (n, r) \<Rightarrow> if n \<le> length r then Some (take n r, drop n r) else None)"

definition encBool :: "bool \<Rightarrow> string" where
  "encBool b = (if b then ''t'' else ''f'')"

definition decBool :: "string \<Rightarrow> (bool \<times> string) option" where
  "decBool s = (case s of [] \<Rightarrow> None | c # r \<Rightarrow> Some (c = CHR ''t'', r))"

definition encTodo :: "Todo \<Rightarrow> string" where
  "encTodo t =
     encNat (unat (ID t)) @ encString (Title t) @ encString (Description t)
     @ encBool (Completed t) @ encInt (CreatedAt t) @ encInt (UpdatedAt t)"

definition decTodo :: "string \<Rightarrow> (Todo \<times> string) option" where
  "decTodo s =
     (case decNat s of None \<Rightarrow> None | Some (i, s1) \<Rightarrow>
     (case decString s1 of None \<Rightarrow> None | Some (ti, s2) \<Rightarrow>
     (case decString s2 of None \<Rightarrow> None | Some (de, s3) \<Rightarrow>
     (case decBool s3 of None \<Rightarrow> None | Some (co, s4) \<Rightarrow>
     (case decInt s4 of None \<Rightarrow> None | Some (cr, s5) \<Rightarrow>
     (case decInt s5 of None \<Rightarrow> None | Some (up, s6) \<Rightarrow>
        Some (\<lparr>ID = of_nat i, Title = ti, Description = de, Completed = co,
                CreatedAt = cr, UpdatedAt = up\<rparr>, s6)))))))"

primrec decTodos :: "nat \<Rightarrow> string \<Rightarrow> (Todo list \<times> string) option" where
  "decTodos 0 s = Some ([], s)"
| "decTodos (Suc n) s =
     (case decTodo s of
        None \<Rightarrow> None
      | Some (t, s1) \<Rightarrow>
          (case decTodos n s1 of
             None \<Rightarrow> None
           | Some (ts, s2) \<Rightarrow> Some (t # ts, s2)))"

definition encStorage :: "TodoStorage \<Rightarrow> string" where
  "encStorage st =
     encNat (length (Todos st)) @ concat (map encTodo (Todos st)) @ encNat (unat (NextID st))"

definition decStorage :: "string \<Rightarrow> TodoStorage option" where
  "decStorage s =
     (case decNat s of None \<Rightarrow> None | Some (n, s1) \<Rightarrow>
     (case decTodos n s1 of None \<Rightarrow> None | Some (ts, s2) \<Rightarrow>
     (case decNat s2 of
        Some (next, []) \<Rightarrow> Some \<lparr>Todos = ts, NextID = of_nat next\<rparr>
      | _ \<Rightarrow> None)))"

definition referenceJSON :: json where
  "referenceJSON =
     \<lparr>Marshal = (\<lambda>st. Some (encStorage (jsonCoerce st))), Unmarshal = decStorage\<rparr>"

definition garbled :: Todo where
  \<comment> \<open>a draft whose title is one byte that is not valid UTF-8\<close>
  "garbled = \<lparr>ID = 0, Title = [CHR 0xFF], Description = ''x'',
              Completed = False, CreatedAt = 0, UpdatedAt = 0\<rparr>"

definition garbledRepo :: FileBasedTodoRepository where
  \<comment> \<open>the repository after \<^const>\<open>garbled\<close> is created at time 3\<close>
  "garbledRepo =
     \<lparr>storage = \<lparr>Todos = [garbled\<lparr>ID := 1, CreatedAt := 3, UpdatedAt := 3\<rparr>], NextID = 2\<rparr>,
      filePath = todosFile\<rparr>"

section \<open>White space\<close>

lemma spaceWidthBytes_le: "spaceWidthBytes bs \<le> length bs"
  by (cases bs rule: spaceWidthBytes.cases) simp_all

lemma spaceWidth_le: "spaceWidth s \<le> length s"
  using spaceWidthBytes_le [of "map of_char s"] by (simp add: spaceWidth_def)

lemma spaceWidthBytes_append:
  "w \<noteq> [] \<Longrightarrow> spaceWidthBytes w = length w \<Longrightarrow> spaceWidthBytes (w @ rest) = length w"
  by (cases w rule: spaceWidthBytes.cases; cases rest rule: spaceWidthBytes.cases)
     (auto split: if_splits)

lemma spaceWidth_append:
  "w \<noteq> [] \<Longrightarrow> spaceWidth w = length w \<Longrightarrow> spaceWidth (w @ rest) = length w"
  using spaceWidthBytes_append [of "map of_char w" "map of_char rest"]
  by (simp add: spaceWidth_def)

lemma spaceWidthBytes_take:
  "spaceWidthBytes bs \<noteq> 0 \<Longrightarrow> spaceWidthBytes (take (spaceWidthBytes bs) bs) = spaceWidthBytes bs"
  by (cases bs rule: spaceWidthBytes.cases) (auto split: if_splits)

lemma spaceWidth_take:
  "spaceWidth s \<noteq> 0 \<Longrightarrow> spaceWidth (take (spaceWidth s) s) = spaceWidth s"
  using spaceWidthBytes_take [of "map of_char s"]
  by (simp add: spaceWidth_def take_map)

lemma trailingSpaceWidth_props:
  assumes "trailingSpaceWidth s \<noteq> 0"
  shows "trailingSpaceWidth s \<le> length s
    \<and> spaceWidth (drop (length s - trailingSpaceWidth s) s) = trailingSpaceWidth s"
proof -
  let ?ws = "filter (\<lambda>w. w \<le> length s \<and> spaceWidth (drop (length s - w) s) = w) [1, 2, 3]"
  show ?thesis
  proof (cases ?ws)
    case Nil
    with assms show ?thesis by (simp add: trailingSpaceWidth_def)
  next
    case (Cons w ws)
    then have "w \<in> set ?ws" by simp
    then have "w \<le> length s \<and> spaceWidth (drop (length s - w) s) = w"
      unfolding set_filter by simp
    moreover from Cons have "trailingSpaceWidth s = w" by (simp add: trailingSpaceWidth_def)
    ultimately show ?thesis by simp
  qed
qed

lemma trimLeft_concat:
  "\<forall>w \<in> set ws. w \<noteq> [] \<and> spaceWidth w = length w \<Longrightarrow> trimLeft (concat ws @ rest) = trimLeft rest"
proof (induction ws)
  case Nil
  then show ?case by simp
next
  case (Cons w ws)
  then have w: "w \<noteq> []" "spaceWidth w = length w" by simp_all
  have "spaceWidth (w @ concat ws @ rest) = length w"
    using w by (rule spaceWidth_append)
  then have "trimLeft (w @ concat ws @ rest) = trimLeft (concat ws @ rest)"
    using w(1) by (subst trimLeft.simps) simp
  with Cons show ?case by simp
qed

lemma spaceWidth_trimLeft: "spaceWidth (trimLeft s) = 0"
  by (induction s rule: trimLeft.induct) (subst trimLeft.simps, simp)

lemma trimLeft_decomp:
  "\<exists>ws. (\<forall>w \<in> set ws. w \<noteq> [] \<and> spaceWidth w = length w) \<and> s = concat ws @ trimLeft s"
proof (induction s rule: trimLeft.induct)
  case (1 s)
  show ?case
  proof (cases "spaceWidth s = 0")
    case True
    then have "trimLeft s = s" by (subst trimLeft.simps) simp
    then have "(\<forall>w \<in> set []. w \<noteq> [] \<and> spaceWidth w = length w) \<and> s = concat [] @ trimLeft s"
      by simp
    then show ?thesis by blast
  next
    case False
    let ?k = "spaceWidth s"
    from "1" False obtain ws where ws: "\<forall>w \<in> set ws. w \<noteq> [] \<and> spaceWidth w = length w"
      and eq: "drop ?k s = concat ws @ trimLeft (drop ?k s)" by blast
    have tl: "trimLeft s = trimLeft (drop ?k s)" using False by (subst trimLeft.simps) simp
    have k: "?k \<le> length s" by (rule spaceWidth_le)
    have "take ?k s \<noteq> [] \<and> spaceWidth (take ?k s) = length (take ?k s)"
      using False k spaceWidth_take [of s] by auto
    with ws have "\<forall>w \<in> set (take ?k s # ws). w \<noteq> [] \<and> spaceWidth w = length w" by simp
    moreover have "s = take ?k s @ drop ?k s" by simp
    with eq tl have "s = concat (take ?k s # ws) @ trimLeft s" by simp
    ultimately show ?thesis by blast
  qed
qed

lemma all_whitespace_snoc:
  assumes "all_whitespace a" and b: "b \<noteq> []" "spaceWidth b = length b"
  shows "all_whitespace (a @ b)"
proof -
  from assms obtain ws where "\<forall>w \<in> set ws. w \<noteq> [] \<and> spaceWidth w = length w" "concat ws = a"
    by (auto simp: all_whitespace_def)
  with b have "(\<forall>w \<in> set (ws @ [b]). w \<noteq> [] \<and> spaceWidth w = length w) \<and> concat (ws @ [b]) = a @ b"
    by auto
  then show ?thesis unfolding all_whitespace_def by blast
qed

lemma all_whitespace_Nil: "all_whitespace []"
proof -
  have "(\<forall>w \<in> set []. w \<noteq> [] \<and> spaceWidth w = length w) \<and> concat [] = ([] :: string)" by simp
  then show ?thesis unfolding all_whitespace_def by blast
qed

lemma trimRight_empty: "trimRight s = [] \<Longrightarrow> all_whitespace s"
proof (induction s rule: trimRight.induct)
  case (1 s)
  show ?case
  proof (cases "trailingSpaceWidth s = 0")
    case True
    then have "trimRight s = s" by (subst trimRight.simps) simp
    with "1.prems" show ?thesis by (simp add: all_whitespace_Nil)
  next
    case False
    let ?w = "trailingSpaceWidth s"
    let ?n = "length s - ?w"
    have "trimRight s = trimRight (take ?n s)" using False by (subst trimRight.simps) simp
    with "1" False have a: "all_whitespace (take ?n s)" by simp
    from trailingSpaceWidth_props [OF False]
    have w: "?w \<le> length s" "spaceWidth (drop ?n s) = ?w" by simp_all
    then have "drop ?n s \<noteq> []" "spaceWidth (drop ?n s) = length (drop ?n s)"
      using False by auto
    with a have "all_whitespace (take ?n s @ drop ?n s)" by (rule all_whitespace_snoc)
    then show ?thesis by simp
  qed
qed

lemma all_whitespace_start: 
  assumes "all_whitespace s" and ne: "s \<noteq> []"
  shows "spaceWidth s \<noteq> 0"
proof -
  from assms obtain ws where ws: "\<forall>w \<in> set ws. w \<noteq> [] \<and> spaceWidth w = length w" "concat ws = s"
    by (auto simp: all_whitespace_def)
  with ne obtain w ws' where "ws = w # ws'" by (cases ws) auto
  with ws have "w \<noteq> []" "spaceWidth w = length w" "s = w @ concat ws'" by auto
  then show ?thesis using spaceWidth_append [of w "concat ws'"] by simp
qed

lemma TrimSpace_empty_iff: "TrimSpace s = [] \<longleftrightarrow> all_whitespace s"
proof
  assume e: "TrimSpace s = []"
  then have "all_whitespace (trimLeft s)" by (simp add: TrimSpace_def trimRight_empty)
  then have "trimLeft s = []"
    using all_whitespace_start [of "trimLeft s"] spaceWidth_trimLeft [of s] by blast
  with trimLeft_decomp [of s] show "all_whitespace s" unfolding all_whitespace_def by auto
next
  assume "all_whitespace s"
  then obtain ws where ws: "\<forall>w \<in> set ws. w \<noteq> [] \<and> spaceWidth w = length w" "concat ws = s"
    by (auto simp: all_whitespace_def)
  have "trimLeft (concat ws @ []) = trimLeft []" using ws(1) by (rule trimLeft_concat)
  moreover have "trimLeft [] = []" by (subst trimLeft.simps) (simp add: spaceWidth_def)
  moreover have "trimRight [] = []" by (subst trimRight.simps) (simp add: trailingSpaceWidth_def)
  ultimately show "TrimSpace s = []" using ws(2) by (simp add: TrimSpace_def)
qed

lemma spaceWidthBytes_space1: "isSpace1 b \<Longrightarrow> spaceWidthBytes (b # bs) = 1"
  by (cases bs rule: spaceWidthBytes.cases) simp_all

lemma spaceWidthBytes_ascii:
  "b < 128 \<Longrightarrow> \<not> isSpace1 b \<Longrightarrow> spaceWidthBytes (b # bs) = 0"
  by (cases bs rule: spaceWidthBytes.cases) (simp_all add: isSpace2_def isSpace3_def)

lemma trimLeft_spaces: "trimLeft (replicate n (CHR '' '') @ s) = trimLeft s"
proof (induction n)
  case 0
  then show ?case by simp
next
  case (Suc n)
  have "spaceWidth (CHR '' '' # replicate n (CHR '' '') @ s) = 1"
    by (simp add: spaceWidth_def spaceWidthBytes_space1 isSpace1_def)
  then have "trimLeft (CHR '' '' # replicate n (CHR '' '') @ s)
      = trimLeft (replicate n (CHR '' '') @ s)"
    by (subst trimLeft.simps) simp
  with Suc show ?case by simp
qed

lemma trimRight_spaces: "trimRight (s @ replicate n (CHR '' '')) = trimRight s"
proof (induction n)
  case 0
  then show ?case by simp
next
  case (Suc n)
  let ?t = "s @ replicate n (CHR '' '')"
  have "trailingSpaceWidth (?t @ [CHR '' '']) = 1"
    by (simp add: trailingSpaceWidth_def spaceWidth_def isSpace1_def)
  then have "trimRight (?t @ [CHR '' '']) = trimRight ?t"
    by (subst trimRight.simps) simp
  moreover have "s @ replicate (Suc n) (CHR '' '') = ?t @ [CHR '' '']"
    by (simp add: replicate_append_same)
  ultimately show ?case using Suc by simp
qed

lemma length_paddedTitle: "length paddedTitle = 201"
  by (simp add: paddedTitle_def)

lemma TrimSpace_paddedTitle: "TrimSpace paddedTitle = ''a''"
proof -
  have "trimLeft paddedTitle = trimLeft (''a'' @ replicate 50 (CHR '' ''))"
    unfolding paddedTitle_def by (rule trimLeft_spaces)
  also have "\<dots> = ''a'' @ replicate 50 (CHR '' '')"
    by (subst trimLeft.simps) (simp add: spaceWidth_def spaceWidthBytes_ascii isSpace1_def)
  finally have "TrimSpace paddedTitle = trimRight ''a''"
    by (simp only: TrimSpace_def trimRight_spaces)
  also have "\<dots> = ''a''"
    by (subst trimRight.simps)
       (simp add: trailingSpaceWidth_def spaceWidth_def isSpace1_def isSpace2_def isSpace3_def)
  finally show ?thesis .
qed

section \<open>Lookup and evaluation\<close>

lemmas storage_defs =
  NewTodoStorage_def GenerateNextID_def AddTodo_def SetTimestamps_def FindTodoByID_def
  UpdateTodo_def DeleteTodo_def GetAllTodos_def

lemmas validate_defs = Validate_def ValidateTitle_def ValidateDescription_def

lemmas eval_defs =
  TrimSpace_def trimLeft.simps trimRight.simps spaceWidth_def trailingSpaceWidth_def
  isSpace1_def isSpace2_def isSpace3_def

lemma findFrom_None: "findFrom i xs wanted = None \<longleftrightarrow> (\<forall>x \<in> set xs. ID x \<noteq> wanted)"
  by (induction xs arbitrary: i) auto

lemma findFrom_Some:
  "findFrom i xs wanted = Some (x, k) \<Longrightarrow>
     i \<le> k \<and> k - i < length xs \<and> xs ! (k - i) = x \<and> ID x = wanted
     \<and> (\<forall>m < k - i. ID (xs ! m) \<noteq> wanted)"
proof (induction xs arbitrary: i)
  case Nil
  then show ?case by simp
next
  case (Cons a xs)
  show ?case
  proof (cases "ID a = wanted")
    case True
    with Cons.prems show ?thesis by simp
  next
    case False
    with Cons.prems have f: "findFrom (Suc i) xs wanted = Some (x, k)" by simp
    from Cons.IH [OF f] have ih: "Suc i \<le> k" "k - Suc i < length xs" "xs ! (k - Suc i) = x"
      "ID x = wanted" "\<forall>m < k - Suc i. ID (xs ! m) \<noteq> wanted" by simp_all
    from ih(1) have e: "k - i = Suc (k - Suc i)" by simp
    have "\<forall>m < k - i. ID ((a # xs) ! m) \<noteq> wanted"
    proof (intro allI impI)
      fix m assume "m < k - i"
      then show "ID ((a # xs) ! m) \<noteq> wanted"
        using False ih(5) e by (cases m) auto
    qed
    with ih e show ?thesis by simp
  qed
qed

lemma FindTodoByID_missing:
  "FindTodoByID ts wanted = Inl NotFoundError \<longleftrightarrow> (\<forall>x \<in> set (Todos ts). ID x \<noteq> wanted)"
proof (cases "findFrom 0 (Todos ts) wanted")
  case None
  then show ?thesis using findFrom_None [of 0 "Todos ts" wanted] by (simp add: FindTodoByID_def)
next
  case (Some found)
  then show ?thesis using findFrom_None [of 0 "Todos ts" wanted] by (simp add: FindTodoByID_def)
qed

lemma FindTodoByID_Inl: "FindTodoByID ts wanted = Inl err \<Longrightarrow> err = NotFoundError"
  by (auto simp: FindTodoByID_def split: option.splits)

lemma FindTodoByID_found:
  "FindTodoByID ts wanted = Inr (x, k) \<Longrightarrow>
     k < length (Todos ts) \<and> Todos ts ! k = x \<and> ID x = wanted
     \<and> (\<forall>m < k. ID (Todos ts ! m) \<noteq> wanted)"
  using findFrom_Some [of 0 "Todos ts" wanted x k]
  by (auto simp: FindTodoByID_def split: option.splits)

lemma GetByID_missing:
  "GetByID r wanted = Inl NotFoundError \<longleftrightarrow> (\<forall>x \<in> set (Todos (storage r)). ID x \<noteq> wanted)"
  using FindTodoByID_missing [of "storage r" wanted]
  by (auto simp: GetByID_def split: sum.splits dest: FindTodoByID_Inl)

lemma GetByID_found:
  "GetByID r wanted = Inr x \<longleftrightarrow> (\<exists>k. FindTodoByID (storage r) wanted = Inr (x, k))"
  by (auto simp: GetByID_def split: sum.splits)

lemma findFrom_list_update:
  "ID u = wanted \<Longrightarrow> k < length xs \<Longrightarrow> \<forall>m < k. ID (xs ! m) \<noteq> wanted
     \<Longrightarrow> findFrom i (xs[k := u]) wanted = Some (u, i + k)"
proof (induction k arbitrary: i xs)
  case 0
  then show ?case by (cases xs) auto
next
  case (Suc k)
  then obtain a xs' where xs: "xs = a # xs'" by (cases xs) auto
  with Suc.prems have "ID a \<noteq> wanted" by auto
  moreover from Suc.prems xs have "k < length xs'" "\<forall>m < k. ID (xs' ! m) \<noteq> wanted"
    by auto
  ultimately show ?case using Suc.IH [of xs' "Suc i"] Suc.prems(1) xs by simp
qed

lemma saveUnsafe_IOError: "saveUnsafe j r os = (Some err, os1) \<Longrightarrow> \<exists>f. err = IOError f"
  by (auto simp: saveUnsafe_def WriteFile_def split: option.splits if_splits)

lemma Validate_groceries: "Validate groceries = None"
  by (simp add: validate_defs groceries_def eval_defs)

lemma Validate_backdated: "Validate backdated = None"
  by (simp add: validate_defs backdated_def eval_defs)

lemma Validate_untitled: "Validate untitled = Some (ValidationError EmptyTitle)"
  by (simp add: validate_defs untitled_def eval_defs)

lemmas repo_defs =
  NewFileBasedTodoRepository_def Load_def saveUnsafe_def Save_def WriteFile_def GetAll_def
  GetByID_def Create_def Update_def Delete_def Let_def

lemmas sample_valid =
  Validate_groceries Validate_backdated Validate_untitled
  Validate_groceries [unfolded groceries_def] Validate_backdated [unfolded backdated_def]
  Validate_untitled [unfolded untitled_def]

lemmas sample_defs =
  emptyDisk_def fullDisk_def standInJSON_def todosFile_def storedGroceries_def oneTodo_def
  groceries_def

section \<open>Identifiers along a run\<close>

lemma sint_succ:
  assumes "sint (w :: 64 word) < 2 ^ 63 - 1"
  shows "sint (w + 1) = sint w + 1"
proof -
  have lo: "- (2 ^ 63) \<le> sint w" using sint_ge [of w] by simp
  have "sint (w + 1) = signed_take_bit 63 (sint w + 1)"
    by (simp add: sint_word_ariths)
  also have "\<dots> = sint w + 1"
    using lo assms by (intro signed_take_bit_int_eq_self) auto
  finally show ?thesis .
qed

lemma AddTodo_eq:
  "AddTodo now d ts =
     (d\<lparr>ID := NextID ts, CreatedAt := (if CreatedAt d = 0 then now else CreatedAt d),
        UpdatedAt := now\<rparr>,
      \<lparr>Todos = Todos ts @ [d\<lparr>ID := NextID ts,
                               CreatedAt := (if CreatedAt d = 0 then now else CreatedAt d),
                               UpdatedAt := now\<rparr>],
       NextID = NextID ts + 1\<rparr>)"
  by (cases ts) (simp add: storage_defs Let_def)

lemma AddTodo_well_numbered:
  assumes "well_numbered ts" and "sint (NextID ts) < 2 ^ 63 - 1"
  shows "well_numbered (snd (AddTodo now d ts))
         \<and> sint (NextID (snd (AddTodo now d ts))) = sint (NextID ts) + 1"
proof -
  from assms(2) have n: "sint (NextID ts + 1) = sint (NextID ts) + 1" by (rule sint_succ)
  from assms(1) have d: "distinct (map ID (Todos ts))"
    and b: "\<forall>t \<in> set (Todos ts). sint (ID t) < sint (NextID ts)"
    by (simp_all add: well_numbered_def word_sless_alt)
  from b have "NextID ts \<notin> ID ` set (Todos ts)" by auto
  with d b n show ?thesis
    by (auto simp: AddTodo_eq well_numbered_def word_sless_alt)
qed

lemma UpdateTodo_ids:
  "map ID (Todos (snd (UpdateTodo now wanted d ts))) = map ID (Todos ts)
   \<and> NextID (snd (UpdateTodo now wanted d ts)) = NextID ts"
proof (cases "FindTodoByID ts wanted")
  case (Inl err)
  then show ?thesis by (simp add: UpdateTodo_def)
next
  case (Inr found)
  obtain old k where f: "found = (old, k)" by (cases found)
  with Inr FindTodoByID_found [of ts wanted old k]
  have "k < length (Todos ts)" "Todos ts ! k = old" by simp_all
  then have "(map ID (Todos ts))[k := ID old] = map ID (Todos ts)"
    by (metis list_update_id nth_map)
  with Inr f show ?thesis by (simp add: UpdateTodo_def Let_def map_update)
qed

lemma UpdateTodo_well_numbered:
  "well_numbered ts \<Longrightarrow> well_numbered (snd (UpdateTodo now wanted d ts))"
  using UpdateTodo_ids [of now wanted d ts]
  by (simp add: well_numbered_def) (metis (no_types, lifting) image_iff image_set)

lemma DeleteTodo_ids:
  "NextID (snd (DeleteTodo wanted ts)) = NextID ts
   \<and> set (Todos (snd (DeleteTodo wanted ts))) \<subseteq> set (Todos ts)
   \<and> (distinct (map ID (Todos ts)) \<longrightarrow>
        distinct (map ID (Todos (snd (DeleteTodo wanted ts))))
        \<and> wanted \<notin> ID ` set (Todos (snd (DeleteTodo wanted ts))))"
proof (cases "FindTodoByID ts wanted")
  case (Inl err)
  then have "err = NotFoundError" by (rule FindTodoByID_Inl)
  with Inl have "\<forall>x \<in> set (Todos ts). ID x \<noteq> wanted" by (simp add: FindTodoByID_missing)
  with Inl show ?thesis by (auto simp: DeleteTodo_def)
next
  case (Inr found)
  obtain old k where f: "found = (old, k)" by (cases found)
  let ?xs = "Todos ts"
  let ?ys = "take k ?xs @ drop (Suc k) ?xs"
  from Inr f FindTodoByID_found [of ts wanted old k]
  have k: "k < length ?xs" "ID (?xs ! k) = wanted" by simp_all
  from Inr f have e: "snd (DeleteTodo wanted ts) = ts\<lparr>Todos := ?ys\<rparr>"
    by (simp add: DeleteTodo_def)
  have sub: "set ?ys \<subseteq> set ?xs"
    by (auto dest: in_set_takeD in_set_dropD)
  have "distinct (map ID ?ys) \<and> wanted \<notin> ID ` set ?ys" if d: "distinct (map ID ?xs)"
  proof -
    let ?is = "map ID ?xs"
    have m: "map ID ?ys = take k ?is @ drop (Suc k) ?is" by (simp add: take_map drop_map)
    have split: "?is = take k ?is @ wanted # drop (Suc k) ?is"
      using k by (metis id_take_nth_drop length_map nth_map)
    from d have "distinct (take k ?is @ wanted # drop (Suc k) ?is)" using split by simp
    then have "distinct (take k ?is @ drop (Suc k) ?is)"
      and "wanted \<notin> set (take k ?is @ drop (Suc k) ?is)" by auto
    with m show ?thesis by (metis image_set)
  qed
  with e sub show ?thesis by simp
qed

lemma DeleteTodo_well_numbered:
  "well_numbered ts \<Longrightarrow> well_numbered (snd (DeleteTodo wanted ts))"
  using DeleteTodo_ids [of wanted ts] by (auto simp: well_numbered_def)

lemma Create_storage:
  "storage (fst (snd (snd (Create j now todo r os)))) =
     (case todo of
        None \<Rightarrow> storage r
      | Some t \<Rightarrow> (case Validate t of
                     Some err \<Rightarrow> storage r
                   | None \<Rightarrow> snd (AddTodo now t (storage r))))"
  by (auto simp: Create_def Let_def split: option.splits prod.splits)

lemma Update_storage:
  "storage (fst (snd (snd (Update j now wanted todo r os)))) =
     (case todo of
        None \<Rightarrow> storage r
      | Some t \<Rightarrow> (case Validate t of
                     Some err \<Rightarrow> storage r
                   | None \<Rightarrow> snd (UpdateTodo now wanted t (storage r))))"
  by (auto simp: Update_def Let_def split: option.splits prod.splits sum.splits)

lemma Delete_storage:
  "storage (fst (snd (Delete j wanted r os))) = snd (DeleteTodo wanted (storage r))"
  by (auto simp: Delete_def Let_def split: option.splits prod.splits)

lemma exec_step:
  assumes w: "well_numbered (storage (fst s))"
    and b: "isCreate x \<longrightarrow> sint (NextID (storage (fst s))) < 2 ^ 63 - 1"
  shows "well_numbered (storage (fst (exec j x s)))
         \<and> sint (NextID (storage (fst s))) \<le> sint (NextID (storage (fst (exec j x s))))
         \<and> sint (NextID (storage (fst (exec j x s))))
             \<le> sint (NextID (storage (fst s))) + (if isCreate x then 1 else 0)"
proof -
  obtain r os where s: "s = (r, os)" by (cases s)
  show ?thesis
  proof (cases x)
    case (OpCreate todo now)
    obtain e t r1 os1 where c: "Create j now todo r os = (e, t, r1, os1)"
      by (cases "Create j now todo r os")
    from Create_storage [of j now todo r os] c
    have st: "storage r1 = (case todo of None \<Rightarrow> storage r
        | Some t \<Rightarrow> (case Validate t of Some err \<Rightarrow> storage r
                      | None \<Rightarrow> snd (AddTodo now t (storage r))))" by simp
    from b OpCreate s have "sint (NextID (storage r)) < 2 ^ 63 - 1" by simp
    with w s have a: "well_numbered (snd (AddTodo now d (storage r)))
        \<and> sint (NextID (snd (AddTodo now d (storage r)))) = sint (NextID (storage r)) + 1" for d
      using AddTodo_well_numbered by simp
    from w s st a have "well_numbered (storage r1)
        \<and> sint (NextID (storage r)) \<le> sint (NextID (storage r1))
        \<and> sint (NextID (storage r1)) \<le> sint (NextID (storage r)) + 1"
      by (auto split: option.splits)
    with OpCreate s c show ?thesis by simp
  next
    case (OpUpdate wanted todo now)
    obtain e t r1 os1 where c: "Update j now wanted todo r os = (e, t, r1, os1)"
      by (cases "Update j now wanted todo r os")
    from Update_storage [of j now wanted todo r os] c
    have st: "storage r1 = (case todo of None \<Rightarrow> storage r
        | Some t \<Rightarrow> (case Validate t of Some err \<Rightarrow> storage r
                      | None \<Rightarrow> snd (UpdateTodo now wanted t (storage r))))" by simp
    from w s st have "well_numbered (storage r1) \<and> NextID (storage r1) = NextID (storage r)"
      using UpdateTodo_well_numbered UpdateTodo_ids by (auto split: option.splits)
    with OpUpdate s c show ?thesis by simp
  next
    case (OpDelete wanted)
    obtain e r1 os1 where c: "Delete j wanted r os = (e, r1, os1)"
      by (cases "Delete j wanted r os")
    from Delete_storage [of j wanted r os] c
    have st: "storage r1 = snd (DeleteTodo wanted (storage r))" by simp
    from w s st have "well_numbered (storage r1) \<and> NextID (storage r1) = NextID (storage r)"
      using DeleteTodo_well_numbered DeleteTodo_ids by simp
    with OpDelete s c show ?thesis by simp
  next
    case (OpEnv os1)
    with w s show ?thesis by simp
  qed
qed

lemma creates_Cons: "creates (x # xs) = (if isCreate x then 1 else 0) + creates xs"
  by (simp add: creates_def)

lemma run_well_numbered:
  assumes "well_numbered (storage (fst s))"
    and "sint (NextID (storage (fst s))) + int (creates ops) < 2 ^ 63"
  shows "well_numbered (storage (fst (run j ops s)))
         \<and> sint (NextID (storage (fst s))) \<le> sint (NextID (storage (fst (run j ops s))))
         \<and> sint (NextID (storage (fst (run j ops s))))
             \<le> sint (NextID (storage (fst s))) + int (creates ops)"
  using assms
proof (induction ops arbitrary: s)
  case Nil
  then show ?case by (simp add: creates_def)
next
  case (Cons x xs)
  from Cons.prems(2) have "isCreate x \<longrightarrow> sint (NextID (storage (fst s))) < 2 ^ 63 - 1"
    by (cases "isCreate x") (simp_all add: creates_Cons)
  from exec_step [OF Cons.prems(1) this, of j]
  have e: "well_numbered (storage (fst (exec j x s)))"
    "sint (NextID (storage (fst s))) \<le> sint (NextID (storage (fst (exec j x s))))"
    "sint (NextID (storage (fst (exec j x s))))
       \<le> sint (NextID (storage (fst s))) + (if isCreate x then 1 else 0)"
    by simp_all
  from e(3) Cons.prems(2)
  have "sint (NextID (storage (fst (exec j x s)))) + int (creates xs) < 2 ^ 63"
    by (simp add: creates_Cons split: if_splits)
  from Cons.IH [OF e(1) this] e(2) e(3) show ?case
    by (simp add: creates_Cons split: if_splits)
qed

lemma trace_ids_below:
  assumes "well_numbered (storage (fst s))"
    and "sint (NextID (storage (fst s))) + int (creates ops) < 2 ^ 63"
  shows "\<forall>s' \<in> set (trace j ops s). \<forall>t \<in> set (Todos (storage (fst s'))).
           ID t <s NextID (storage (fst (run j ops s)))"
  using assms
proof (induction ops arbitrary: s)
  case Nil
  then show ?case by (simp add: well_numbered_def)
next
  case (Cons x xs)
  from Cons.prems(2) have "isCreate x \<longrightarrow> sint (NextID (storage (fst s))) < 2 ^ 63 - 1"
    by (cases "isCreate x") (simp_all add: creates_Cons)
  from exec_step [OF Cons.prems(1) this, of j]
  have e: "well_numbered (storage (fst (exec j x s)))"
    "sint (NextID (storage (fst (exec j x s))))
       \<le> sint (NextID (storage (fst s))) + (if isCreate x then 1 else 0)"
    by simp_all
  from e(2) Cons.prems(2)
  have b: "sint (NextID (storage (fst (exec j x s)))) + int (creates xs) < 2 ^ 63"
    by (simp add: creates_Cons split: if_splits)
  from run_well_numbered [OF Cons.prems, of j]
  have "sint (NextID (storage (fst s))) \<le> sint (NextID (storage (fst (run j (x # xs) s))))"
    by simp
  with Cons.prems(1)
  have "\<forall>t \<in> set (Todos (storage (fst s))). ID t <s NextID (storage (fst (run j (x # xs) s)))"
    by (fastforce simp: well_numbered_def word_sless_alt)
  with Cons.IH [OF e(1) b] show ?case by simp
qed

lemma init_well_numbered:
  "well_numbered (storage (fst (NewFileBasedTodoRepository path, os)))
   \<and> sint (NextID (storage (fst (NewFileBasedTodoRepository path, os)))) = 1"
  by (simp add: well_numbered_def NewFileBasedTodoRepository_def NewTodoStorage_def)

lemma run_creates:
  "NextID (storage (fst (run j (replicate n (OpCreate (Some groceries) now)) (r, os))))
     = NextID (storage r) + of_nat n
   \<and> set (Todos (storage r))
       \<subseteq> set (Todos (storage (fst (run j (replicate n (OpCreate (Some groceries) now)) (r, os)))))"
proof (induction n arbitrary: r os)
  case 0
  then show ?case by simp
next
  case (Suc n)
  obtain e t r1 os1 where c: "Create j now (Some groceries) r os = (e, t, r1, os1)"
    by (cases "Create j now (Some groceries) r os")
  from Create_storage [of j now "Some groceries" r os] c
  have st: "storage r1 = snd (AddTodo now groceries (storage r))"
    by (simp add: Validate_groceries)
  then have "NextID (storage r1) = NextID (storage r) + 1"
    and "set (Todos (storage r)) \<subseteq> set (Todos (storage r1))"
    by (auto simp: AddTodo_eq)
  with Suc.IH [of r1 os1] c show ?case by auto
qed

section \<open>Strings through the JSON library\<close>

lemma runeWidthBytes_le: "runeWidthBytes bs \<le> length bs"
  by (cases bs rule: runeWidthBytes.cases) simp_all

lemma runeWidth_le: "runeWidth s \<le> length s"
  using runeWidthBytes_le [of "map of_char s"] by (simp add: runeWidth_def)

lemma length_toValidUTF8: "length s \<le> length (toValidUTF8 s)"
proof (induction s rule: toValidUTF8.induct)
  case (1 s)
  show ?case
  proof (cases "s = []")
    case True
    then show ?thesis by (subst toValidUTF8.simps) simp
  next
    case ne: False
    show ?thesis
    proof (cases "runeWidth s = 0")
      case True
      with ne "1.IH"(1) have "length (drop 1 s) \<le> length (toValidUTF8 (drop 1 s))" by simp
      with ne True show ?thesis
        by (subst toValidUTF8.simps) (simp add: replacementChar_def)
    next
      case False
      with ne "1.IH"(2)
      have "length (drop (runeWidth s) s) \<le> length (toValidUTF8 (drop (runeWidth s) s))"
        by simp
      with ne False runeWidth_le [of s] show ?thesis
        by (subst toValidUTF8.simps) simp
    qed
  qed
qed

lemma toValidUTF8_id_iff: "toValidUTF8 s = s \<longleftrightarrow> validUTF8 s"
proof (induction s rule: toValidUTF8.induct)
  case (1 s)
  show ?case
  proof (cases "s = []")
    case True
    then show ?thesis by (subst toValidUTF8.simps, subst validUTF8.simps) simp
  next
    case ne: False
    show ?thesis
    proof (cases "runeWidth s = 0")
      case True
      have "length (drop 1 s) \<le> length (toValidUTF8 (drop 1 s))" by (rule length_toValidUTF8)
      with ne have "length s < length (replacementChar @ toValidUTF8 (drop 1 s))"
        by (simp add: replacementChar_def)
      with ne True have "length s < length (toValidUTF8 s)"
        by (subst toValidUTF8.simps) simp
      then have "toValidUTF8 s \<noteq> s" by auto
      moreover from ne True have "\<not> validUTF8 s" by (subst validUTF8.simps) simp
      ultimately show ?thesis by simp
    next
      case False
      let ?w = "runeWidth s"
      from ne False have t: "toValidUTF8 s = take ?w s @ toValidUTF8 (drop ?w s)"
        by (subst toValidUTF8.simps) simp
      from ne False have v: "validUTF8 s = validUTF8 (drop ?w s)"
        by (subst validUTF8.simps) simp
      have "toValidUTF8 s = s \<longleftrightarrow> toValidUTF8 (drop ?w s) = drop ?w s"
        using t by (metis append_take_drop_id same_append_eq)
      also have "\<dots> \<longleftrightarrow> validUTF8 (drop ?w s)" using "1.IH"(2) ne False by simp
      finally show ?thesis using v by simp
    qed
  qed
qed

lemma jsonCoerce_id_iff:
  "jsonCoerce st = st
     \<longleftrightarrow> (\<forall>t \<in> set (Todos st). validUTF8 (Title t) \<and> validUTF8 (Description t))"
proof -
  let ?f = "\<lambda>t. t\<lparr>Title := toValidUTF8 (Title t), Description := toValidUTF8 (Description t)\<rparr>"
  have f: "?f t = t \<longleftrightarrow> validUTF8 (Title t) \<and> validUTF8 (Description t)" for t :: Todo
    by (cases t) (simp add: toValidUTF8_id_iff)
  have "jsonCoerce st = st \<longleftrightarrow> map ?f (Todos st) = Todos st"
    by (cases st) (simp add: jsonCoerce_def)
  also have "\<dots> \<longleftrightarrow> (\<forall>t \<in> set (Todos st). ?f t = t)"
    using map_eq_conv [of ?f "Todos st" id] by simp
  finally show ?thesis using f by simp
qed

lemma decNat_encNat: "decNat (encNat n @ rest) = Some (n, rest)"
proof -
  have "takeWhile (\<lambda>c. c = CHR ''1'') (replicate n (CHR ''1'') @ CHR ''0'' # rest)
      = replicate n (CHR ''1'')"
    by (subst takeWhile_append2) simp_all
  moreover have "dropWhile (\<lambda>c. c = CHR ''1'') (replicate n (CHR ''1'') @ CHR ''0'' # rest)
      = CHR ''0'' # rest"
    by (subst dropWhile_append2) simp_all
  ultimately show ?thesis by (simp add: decNat_def encNat_def)
qed

lemma decInt_encInt: "decInt (encInt i @ rest) = Some (i, rest)"
  by (simp add: decInt_def encInt_def decNat_encNat)

lemma decString_encString: "decString (encString s @ rest) = Some (s, rest)"
  by (simp add: decString_def encString_def decNat_encNat)

lemma decBool_encBool: "decBool (encBool b @ rest) = Some (b, rest)"
  by (simp add: decBool_def encBool_def)

lemma decTodo_encTodo: "decTodo (encTodo t @ rest) = Some (t, rest)"
  by (cases t)
     (simp add: decTodo_def encTodo_def decNat_encNat decString_encString decBool_encBool
        decInt_encInt)

lemma decTodos_encTodos:
  "decTodos (length ts) (concat (map encTodo ts) @ rest) = Some (ts, rest)"
  by (induction ts) (simp_all add: decTodo_encTodo)

lemma decStorage_encStorage: "decStorage (encStorage st) = Some st"
proof -
  have "decNat (encNat (unat (NextID st))) = Some (unat (NextID st), [])"
    using decNat_encNat [of "unat (NextID st)" "[]"] by simp
  then show ?thesis
    by (cases st) (simp add: decStorage_def encStorage_def decNat_encNat decTodos_encTodos)
qed

lemma encStorage_not_empty: "encStorage st \<noteq> []"
  by (simp add: encStorage_def encNat_def)

lemma referenceJSON_contract: "json_contract referenceJSON"
  by (auto simp: json_contract_def referenceJSON_def decStorage_encStorage encStorage_not_empty)


lemma contract_save_load:
  assumes c: "json_contract j" and ok: "fst (Save j r os) = None"
    and rd: "\<not> read_fails os (filePath r)"
  shows "Load j (NewFileBasedTodoRepository (filePath r)) (snd (Save j r os))
           = (None, r\<lparr>storage := jsonCoerce (storage r)\<rparr>)"
proof -
  from ok obtain data where m: "Marshal j (storage r) = Some data"
    by (cases "Marshal j (storage r)") (auto simp: Save_def)
  with c have d: "data \<noteq> []" "Unmarshal j data = Some (jsonCoerce (storage r))"
    by (auto simp: json_contract_def)
  from ok m have w: "\<not> write_fails os (filePath r)"
    by (auto simp: Save_def WriteFile_def split: if_splits)
  with m have s: "snd (Save j r os) = os\<lparr>files := (files os)(filePath r \<mapsto> data)\<rparr>"
    by (simp add: Save_def WriteFile_def)
  have "Load j (NewFileBasedTodoRepository (filePath r))
          (os\<lparr>files := (files os)(filePath r \<mapsto> data)\<rparr>)
      = (None, (NewFileBasedTodoRepository (filePath r))\<lparr>storage := jsonCoerce (storage r)\<rparr>)"
    using d rd by (simp add: Load_def NewFileBasedTodoRepository_def)
  moreover have "(NewFileBasedTodoRepository (filePath r))\<lparr>storage := jsonCoerce (storage r)\<rparr>
      = r\<lparr>storage := jsonCoerce (storage r)\<rparr>"
    by (cases r) (simp add: NewFileBasedTodoRepository_def)
  ultimately show ?thesis by (simp add: s)
qed

lemmas utf8_defs =
  toValidUTF8.simps validUTF8.simps runeWidth_def isRune1_def isRune2_def isRune3_def
  isRune4_def isCont_def replacementChar_def

lemma Save_referenceJSON:
  "fst (Save referenceJSON r emptyDisk) = None"
  by (simp add: Save_def referenceJSON_def WriteFile_def emptyDisk_def)

section \<open>Properties of the repository and of the service\<close>

text \<open>
  C1. \<^verbatim>\<open>Update\<close> validates the draft before it looks the identifier up. With an
  identifier that no record has, a valid draft gives the not-found error and an invalid
  draft gives its validation error; in both cases the repository and the file system are
  unchanged. The service's \<^verbatim>\<open>UpdateTodo\<close> has the same order, after its check of the
  identifier.
\<close>

theorem update_missing_id:
  assumes "\<forall>x \<in> set (Todos (storage r)). ID x \<noteq> wanted"
  shows "Update j now wanted (Some t) r os =
           (case Validate t of
              Some err \<Rightarrow> (Some err, Some t, r, os)
            | None \<Rightarrow> (Some NotFoundError, Some t, r, os))
         \<and> UpdateTodoService j now wanted title description completed r os =
             (if wanted \<le>s 0 then (Inl InvalidID, r, os)
              else case validateTodoInput title description of
                     Some err \<Rightarrow> (Inl err, r, os)
                   | None \<Rightarrow> (Inl NotFoundError, r, os))"
proof -
  from assms have f: "FindTodoByID (storage r) wanted = Inl NotFoundError"
    by (simp add: FindTodoByID_missing)
  then have "GetByID r wanted = Inl NotFoundError" by (simp add: GetByID_def)
  with f show ?thesis
    by (simp add: Update_def UpdateTodo_def UpdateTodoService_def split: option.splits)
qed

theorem update_missing_id_witness:
  "Update standInJSON 10 999 (Some groceries) (NewFileBasedTodoRepository todosFile) emptyDisk
     = (Some NotFoundError, Some groceries, NewFileBasedTodoRepository todosFile, emptyDisk)
   \<and> UpdateTodoService standInJSON 10 999 ''Buy groceries'' ''Milk'' True
         (NewFileBasedTodoRepository todosFile) emptyDisk
     = (Inl NotFoundError, NewFileBasedTodoRepository todosFile, emptyDisk)"
proof -
  have "\<forall>x \<in> set (Todos (storage (NewFileBasedTodoRepository todosFile))). ID x \<noteq> 999"
    by (simp add: NewFileBasedTodoRepository_def NewTodoStorage_def)
  from update_missing_id [OF this, of standInJSON 10 groceries emptyDisk
      "''Buy groceries''" "''Milk''" True]
  show ?thesis
    by (simp add: Validate_groceries validateTodoInput_def eval_defs word_sle_eq)
qed

theorem update_missing_id_invalid_draft:
  "GetByID (NewFileBasedTodoRepository todosFile) 999 = Inl NotFoundError
   \<and> fst (Update standInJSON 10 999 (Some untitled) (NewFileBasedTodoRepository todosFile) emptyDisk)
       = Some (ValidationError EmptyTitle)
   \<and> fst (Update standInJSON 10 999 (Some untitled) (NewFileBasedTodoRepository todosFile) emptyDisk)
       \<noteq> Some NotFoundError"
  by (simp add: GetByID_def FindTodoByID_def NewFileBasedTodoRepository_def NewTodoStorage_def
      Update_def Validate_untitled)

text \<open>
  C2. Along every run from the initial empty collection that holds fewer than \<open>2\<^sup>6\<^sup>3 - 1\<close>
  calls of \<^verbatim>\<open>Create\<close>, the identifiers of the collection are pairwise distinct and
  the next id is greater than every identifier that is or ever was in the collection.
  After \<^verbatim>\<open>Delete\<close> of an identifier, \<^verbatim>\<open>GetByID\<close> of it returns the not-found error, and
  the identifier that a later \<^verbatim>\<open>Create\<close> assigns is the next id, so it differs from every
  identifier that was ever in the collection, the deleted ones included.
\<close>

theorem ids_distinct_and_never_reused:
  assumes "creates ops < 2 ^ 63 - 1"
  shows "distinct (map ID (Todos (storage (fst (run j ops (NewFileBasedTodoRepository path, os))))))
     \<and> (\<forall>s \<in> set (trace j ops (NewFileBasedTodoRepository path, os)).
          \<forall>t \<in> set (Todos (storage (fst s))).
            ID t <s NextID (storage (fst (run j ops (NewFileBasedTodoRepository path, os)))))
     \<and> (\<forall>wanted r os1. run j ops (NewFileBasedTodoRepository path, os) = (r, os1) \<longrightarrow>
          GetByID (fst (snd (Delete j wanted r os1))) wanted = Inl NotFoundError)
     \<and> (\<forall>d now r os1. run j ops (NewFileBasedTodoRepository path, os) = (r, os1)
          \<and> Validate d = None \<longrightarrow>
          (\<exists>created. fst (snd (Create j now (Some d) r os1)) = Some created
             \<and> ID created = NextID (storage r)
             \<and> (\<forall>s \<in> set (trace j ops (NewFileBasedTodoRepository path, os)).
                  \<forall>t \<in> set (Todos (storage (fst s))). ID t \<noteq> ID created)))"
proof -
  let ?init = "(NewFileBasedTodoRepository path, os)"
  let ?final = "run j ops ?init"
  from assms have "creates ops < 9223372036854775807" by simp
  then have "int (creates ops) < 2 ^ 63 - 1" by simp
  then have b: "sint (NextID (storage (fst ?init))) + int (creates ops) < 2 ^ 63"
    using init_well_numbered [of path os] by simp
  have w0: "well_numbered (storage (fst ?init))" using init_well_numbered by simp
  from run_well_numbered [OF w0 b, of j] have w: "well_numbered (storage (fst ?final))"
    by simp
  then have d: "distinct (map ID (Todos (storage (fst ?final))))"
    by (simp add: well_numbered_def)
  note below = trace_ids_below [OF w0 b, of j]
  have del: "GetByID (fst (snd (Delete j wanted r os1))) wanted = Inl NotFoundError"
    if "?final = (r, os1)" for wanted r os1
  proof -
    from that d have "distinct (map ID (Todos (storage r)))" by simp
    with DeleteTodo_ids [of wanted "storage r"]
    have "wanted \<notin> ID ` set (Todos (snd (DeleteTodo wanted (storage r))))" by simp
    then show ?thesis
      by (subst GetByID_missing) (auto simp: Delete_storage)
  qed
  have cr: "\<exists>created. fst (snd (Create j now (Some d) r os1)) = Some created
             \<and> ID created = NextID (storage r)
             \<and> (\<forall>s \<in> set (trace j ops ?init).
                  \<forall>t \<in> set (Todos (storage (fst s))). ID t \<noteq> ID created)"
    if "?final = (r, os1)" "Validate d = None" for d now r os1
  proof -
    let ?c = "fst (AddTodo now d (storage r))"
    from that(2) have 1: "fst (snd (Create j now (Some d) r os1)) = Some ?c"
      by (auto simp: Create_def Let_def split: prod.splits option.splits)
    have 2: "ID ?c = NextID (storage r)" by (simp add: AddTodo_eq)
    from below that(1)
    have "\<forall>s \<in> set (trace j ops ?init). \<forall>t \<in> set (Todos (storage (fst s))).
            sint (ID t) < sint (NextID (storage r))"
      by (simp add: word_sless_alt)
    then have "\<forall>s \<in> set (trace j ops ?init). \<forall>t \<in> set (Todos (storage (fst s))).
            ID t \<noteq> NextID (storage r)" by fastforce
    with 1 2 show ?thesis by simp
  qed
  from d below del cr show ?thesis by blast
qed

theorem ids_distinct_and_never_reused_witness:
  "creates [OpCreate (Some groceries) 3, OpDelete 1, OpCreate (Some backdated) 10] < 2 ^ 63 - 1
   \<and> Todos (storage (fst (run standInJSON
         [OpCreate (Some groceries) 3, OpDelete 1, OpCreate (Some backdated) 10]
         (NewFileBasedTodoRepository todosFile, emptyDisk))))
       = [backdated\<lparr>ID := 2, UpdatedAt := 10\<rparr>]
   \<and> NextID (storage (fst (run standInJSON
         [OpCreate (Some groceries) 3, OpDelete 1, OpCreate (Some backdated) 10]
         (NewFileBasedTodoRepository todosFile, emptyDisk)))) = 3
   \<and> distinct (map ID (Todos (storage (fst (run standInJSON
         [OpCreate (Some groceries) 3, OpDelete 1, OpCreate (Some backdated) 10]
         (NewFileBasedTodoRepository todosFile, emptyDisk))))))"
proof -
  let ?ops = "[OpCreate (Some groceries) 3, OpDelete 1, OpCreate (Some backdated) 10]"
  have c: "creates ?ops < 2 ^ 63 - 1" by (simp add: creates_def)
  have r: "storage (fst (run standInJSON ?ops (NewFileBasedTodoRepository todosFile, emptyDisk)))
      = \<lparr>Todos = [backdated\<lparr>ID := 2, UpdatedAt := 10\<rparr>], NextID = 3\<rparr>"
    by (simp add: repo_defs storage_defs sample_defs sample_valid backdated_def)
  from ids_distinct_and_never_reused [OF c, of standInJSON todosFile emptyDisk]
  have "distinct (map ID (Todos (storage (fst (run standInJSON ?ops
          (NewFileBasedTodoRepository todosFile, emptyDisk))))))"
    by (rule conjunct1)
  with c r show ?thesis by simp
qed

theorem next_id_wraps_around:
  "storedGroceries \<in> set (Todos (storage (fst (run standInJSON
       (replicate (2 ^ 63 - 1) (OpCreate (Some groceries) 3))
       (NewFileBasedTodoRepository todosFile, emptyDisk)))))
   \<and> ID storedGroceries = 1
   \<and> sint (NextID (storage (fst (run standInJSON
       (replicate (2 ^ 63 - 1) (OpCreate (Some groceries) 3))
       (NewFileBasedTodoRepository todosFile, emptyDisk))))) = - (2 ^ 63)
   \<and> \<not> ID storedGroceries <s NextID (storage (fst (run standInJSON
       (replicate (2 ^ 63 - 1) (OpCreate (Some groceries) 3))
       (NewFileBasedTodoRepository todosFile, emptyDisk))))"
proof -
  let ?x = "OpCreate (Some groceries) 3"
  let ?n = "9223372036854775806 :: nat"
  let ?disk = "emptyDisk\<lparr>files := (files emptyDisk)(todosFile \<mapsto> oneTodoDocument)\<rparr>"
  have n: "(2 :: nat) ^ 63 - 1 = Suc ?n" by simp
  have first: "exec standInJSON ?x (NewFileBasedTodoRepository todosFile, emptyDisk)
      = (oneTodo, ?disk)"
    by (simp add: repo_defs storage_defs sample_defs sample_valid)
  have run: "run standInJSON (replicate (2 ^ 63 - 1) ?x) (NewFileBasedTodoRepository todosFile, emptyDisk)
      = run standInJSON (replicate ?n ?x) (oneTodo, ?disk)"
    unfolding n by (simp only: replicate_Suc run.simps first)
  from run_creates [of standInJSON ?n 3 oneTodo ?disk]
  have nx: "NextID (storage (fst (run standInJSON (replicate ?n ?x) (oneTodo, ?disk))))
      = NextID (storage oneTodo) + of_nat ?n"
    and sub: "set (Todos (storage oneTodo))
      \<subseteq> set (Todos (storage (fst (run standInJSON (replicate ?n ?x) (oneTodo, ?disk)))))"
    by simp_all
  have "NextID (storage oneTodo) + of_nat ?n = (9223372036854775808 :: 64 word)"
    by (simp add: oneTodo_def)
  with nx have nx': "NextID (storage (fst (run standInJSON (replicate ?n ?x) (oneTodo, ?disk))))
      = 9223372036854775808" by simp
  have "storedGroceries \<in> set (Todos (storage oneTodo))" by (simp add: oneTodo_def)
  with sub have m: "storedGroceries
      \<in> set (Todos (storage (fst (run standInJSON (replicate ?n ?x) (oneTodo, ?disk)))))"
    by blast
  have i: "ID storedGroceries = 1" by (simp add: storedGroceries_def)
  have s: "sint (9223372036854775808 :: 64 word) = - (2 ^ 63)" by simp
  show ?thesis
    unfolding run using m i nx' s by (simp add: word_sless_alt)
qed

text \<open>
  C3. A successful \<^verbatim>\<open>Update\<close> of the record found under an identifier stores, at the place
  of that record, the draft with the identifier and the creation time of the stored
  record and with the current time as update time, whatever identifier and creation time
  the draft carries; title, description and completion flag are the draft's. The same
  record is returned and is what \<^verbatim>\<open>GetByID\<close> finds afterwards.
\<close>

theorem update_keeps_id_and_created_at:
  assumes found: "GetByID r wanted = Inr old"
    and ok: "fst (Update j now wanted (Some draft) r os) = None"
  shows "\<exists>k os1 u.
           u = draft\<lparr>ID := ID old, CreatedAt := CreatedAt old, UpdatedAt := now\<rparr>
           \<and> Update j now wanted (Some draft) r os
               = (None, Some u, r\<lparr>storage := (storage r)\<lparr>Todos := (Todos (storage r))[k := u]\<rparr>\<rparr>, os1)
           \<and> k < length (Todos (storage r)) \<and> Todos (storage r) ! k = old
           \<and> GetByID (r\<lparr>storage := (storage r)\<lparr>Todos := (Todos (storage r))[k := u]\<rparr>\<rparr>) wanted = Inr u
           \<and> ID u = wanted \<and> CreatedAt u = CreatedAt old \<and> UpdatedAt u = now
           \<and> Title u = Title draft \<and> Description u = Description draft
           \<and> Completed u = Completed draft"
proof -
  from found obtain k where f: "FindTodoByID (storage r) wanted = Inr (old, k)"
    by (auto simp: GetByID_found)
  from FindTodoByID_found [OF f]
  have k: "k < length (Todos (storage r))" "Todos (storage r) ! k = old" "ID old = wanted"
    "\<forall>m < k. ID (Todos (storage r) ! m) \<noteq> wanted" by simp_all
  define u where "u = draft\<lparr>ID := ID old, CreatedAt := CreatedAt old, UpdatedAt := now\<rparr>"
  define r1 where "r1 = r\<lparr>storage := (storage r)\<lparr>Todos := (Todos (storage r))[k := u]\<rparr>\<rparr>"
  from ok have v: "Validate draft = None"
    by (auto simp: Update_def split: option.splits)
  obtain e os1 where s: "saveUnsafe j r1 os = (e, os1)" by (cases "saveUnsafe j r1 os")
  from v f s have upd: "Update j now wanted (Some draft) r os = (e, Some u, r1, os1)"
    by (auto simp: Update_def UpdateTodo_def u_def r1_def Let_def split: option.splits)
  with ok have e: "e = None" by simp
  have "ID u = wanted" using k(3) by (simp add: u_def)
  from findFrom_list_update [OF this k(1) k(4), of 0]
  have "findFrom 0 ((Todos (storage r))[k := u]) wanted = Some (u, k)" by simp
  then have g: "GetByID r1 wanted = Inr u"
    by (simp add: GetByID_def FindTodoByID_def r1_def)
  show ?thesis
    using upd e g k by (intro exI [of _ k] exI [of _ os1] exI [of _ u]) (simp add: r1_def, simp add: u_def)
qed

theorem update_keeps_id_and_created_at_witness:
  "GetByID oneTodo 1 = Inr storedGroceries
   \<and> ID backdated = 42 \<and> CreatedAt backdated = 5
   \<and> Update standInJSON 10 1 (Some backdated) oneTodo emptyDisk
       = (None, Some (backdated\<lparr>ID := 1, CreatedAt := 3, UpdatedAt := 10\<rparr>),
          oneTodo\<lparr>storage := \<lparr>Todos = [backdated\<lparr>ID := 1, CreatedAt := 3, UpdatedAt := 10\<rparr>],
                               NextID = 2\<rparr>\<rparr>,
          emptyDisk\<lparr>files := (files emptyDisk)(todosFile \<mapsto> ''{...}'')\<rparr>)"
proof -
  have g: "GetByID oneTodo 1 = Inr storedGroceries"
    by (simp add: repo_defs storage_defs sample_defs)
  have u: "Update standInJSON 10 1 (Some backdated) oneTodo emptyDisk
       = (None, Some (backdated\<lparr>ID := 1, CreatedAt := 3, UpdatedAt := 10\<rparr>),
          oneTodo\<lparr>storage := \<lparr>Todos = [backdated\<lparr>ID := 1, CreatedAt := 3, UpdatedAt := 10\<rparr>],
                               NextID = 2\<rparr>\<rparr>,
          emptyDisk\<lparr>files := (files emptyDisk)(todosFile \<mapsto> ''{...}'')\<rparr>)"
    by (simp add: repo_defs storage_defs sample_defs sample_valid backdated_def)
  then have ok: "fst (Update standInJSON 10 1 (Some backdated) oneTodo emptyDisk) = None"
    by simp
  from update_keeps_id_and_created_at [OF g ok] u g show ?thesis
    by (simp add: backdated_def)
qed

text \<open>
  C4. With a JSON library that behaves as \<^verbatim>\<open>encoding/json\<close> does, a \<^verbatim>\<open>Save\<close> that succeeds
  followed by \<^verbatim>\<open>Load\<close> in a fresh repository on the same file yields the persisted
  collection with every byte of a title or description that is not valid UTF-8 replaced
  by U+FFFD, and the same next id. The loaded collection is equal to the persisted one
  exactly when all titles and descriptions are valid UTF-8.
\<close>

theorem save_then_load_valid_utf8:
  assumes "json_contract j" and "fst (Save j r os) = None"
    and "\<not> read_fails os (filePath r)"
  shows "Load j (NewFileBasedTodoRepository (filePath r)) (snd (Save j r os))
           = (None, r\<lparr>storage := jsonCoerce (storage r)\<rparr>)
         \<and> (Load j (NewFileBasedTodoRepository (filePath r)) (snd (Save j r os)) = (None, r)
              \<longleftrightarrow> (\<forall>t \<in> set (Todos (storage r)).
                     validUTF8 (Title t) \<and> validUTF8 (Description t)))"
proof -
  note l = contract_save_load [OF assms]
  have "r\<lparr>storage := jsonCoerce (storage r)\<rparr> = r \<longleftrightarrow> jsonCoerce (storage r) = storage r"
    by (cases r) simp
  with l show ?thesis by (simp add: jsonCoerce_id_iff)
qed

theorem save_then_load_valid_utf8_witness:
  "json_contract referenceJSON
   \<and> fst (Save referenceJSON oneTodo emptyDisk) = None
   \<and> validUTF8 (Title storedGroceries) \<and> validUTF8 (Description storedGroceries)
   \<and> Load referenceJSON (NewFileBasedTodoRepository todosFile)
         (snd (Save referenceJSON oneTodo emptyDisk)) = (None, oneTodo)
   \<and> Todos (storage oneTodo) = [storedGroceries] \<and> NextID (storage oneTodo) = 2"
proof -
  have f: "filePath oneTodo = todosFile" by (simp add: oneTodo_def)
  have rd: "\<not> read_fails emptyDisk (filePath oneTodo)" by (simp add: emptyDisk_def)
  have v: "validUTF8 (Title storedGroceries)" "validUTF8 (Description storedGroceries)"
    by (simp_all add: storedGroceries_def groceries_def utf8_defs)
  then have a: "\<forall>t \<in> set (Todos (storage oneTodo)).
      validUTF8 (Title t) \<and> validUTF8 (Description t)"
    by (simp add: oneTodo_def)
  note t = save_then_load_valid_utf8 [OF referenceJSON_contract Save_referenceJSON rd,
      unfolded f]
  from t have "Load referenceJSON (NewFileBasedTodoRepository todosFile)
         (snd (Save referenceJSON oneTodo emptyDisk)) = (None, oneTodo)
      \<longleftrightarrow> (\<forall>t \<in> set (Todos (storage oneTodo)).
             validUTF8 (Title t) \<and> validUTF8 (Description t))"
    by (rule conjunct2)
  from iffD2 [OF this a]
  have "Load referenceJSON (NewFileBasedTodoRepository todosFile)
         (snd (Save referenceJSON oneTodo emptyDisk)) = (None, oneTodo)" .
  with v show ?thesis
    by (simp add: referenceJSON_contract Save_referenceJSON oneTodo_def)
qed

theorem invalid_utf8_title_not_round_tripped:
  "Validate garbled = None
   \<and> \<not> validUTF8 (Title garbled)
   \<and> Create referenceJSON 3 (Some garbled) (NewFileBasedTodoRepository todosFile) emptyDisk
       = (None, Some (garbled\<lparr>ID := 1, CreatedAt := 3, UpdatedAt := 3\<rparr>), garbledRepo,
          snd (Save referenceJSON garbledRepo emptyDisk))
   \<and> fst (Save referenceJSON garbledRepo emptyDisk) = None
   \<and> Load referenceJSON (NewFileBasedTodoRepository todosFile)
         (snd (Save referenceJSON garbledRepo emptyDisk))
       = (None,
          \<lparr>storage = \<lparr>Todos = [\<lparr>ID = 1, Title = [CHR 0xEF, CHR 0xBF, CHR 0xBD],
                                  Description = ''x'', Completed = False,
                                  CreatedAt = 3, UpdatedAt = 3\<rparr>],
                       NextID = 2\<rparr>,
           filePath = todosFile\<rparr>)
   \<and> Load referenceJSON (NewFileBasedTodoRepository todosFile)
         (snd (Save referenceJSON garbledRepo emptyDisk))
       \<noteq> (None, garbledRepo)"
proof -
  have v: "Validate garbled = None"
    by (simp add: validate_defs garbled_def eval_defs)
  have n: "\<not> validUTF8 (Title garbled)"
    by (simp add: garbled_def utf8_defs)
  have c: "Create referenceJSON 3 (Some garbled) (NewFileBasedTodoRepository todosFile) emptyDisk
       = (None, Some (garbled\<lparr>ID := 1, CreatedAt := 3, UpdatedAt := 3\<rparr>), garbledRepo,
          snd (Save referenceJSON garbledRepo emptyDisk))"
    by (simp add: Create_def v AddTodo_eq saveUnsafe_def Save_def WriteFile_def
        referenceJSON_def emptyDisk_def NewFileBasedTodoRepository_def NewTodoStorage_def
        garbledRepo_def)
       (simp add: garbled_def)
  have f: "filePath garbledRepo = todosFile" by (simp add: garbledRepo_def)
  have rd: "\<not> read_fails emptyDisk (filePath garbledRepo)" by (simp add: emptyDisk_def)
  have j: "jsonCoerce (storage garbledRepo)
      = \<lparr>Todos = [\<lparr>ID = 1, Title = [CHR 0xEF, CHR 0xBF, CHR 0xBD], Description = ''x'',
                    Completed = False, CreatedAt = 3, UpdatedAt = 3\<rparr>], NextID = 2\<rparr>"
    by (simp add: jsonCoerce_def garbledRepo_def garbled_def utf8_defs)
  have u: "garbledRepo\<lparr>storage := st\<rparr> = \<lparr>storage = st, filePath = todosFile\<rparr>" for st
    by (simp add: garbledRepo_def)
  note l = contract_save_load [OF referenceJSON_contract Save_referenceJSON rd,
      unfolded f j u]
  have "\<lparr>storage = \<lparr>Todos = [\<lparr>ID = 1, Title = [CHR 0xEF, CHR 0xBF, CHR 0xBD],
                                  Description = ''x'', Completed = False,
                                  CreatedAt = 3, UpdatedAt = 3\<rparr>],
                       NextID = 2\<rparr>,
           filePath = todosFile\<rparr> \<noteq> garbledRepo"
    by (simp add: garbledRepo_def garbled_def)
  with v n c l show ?thesis by (simp add: Save_referenceJSON)
qed

text \<open>
  C5. \<^verbatim>\<open>Create\<close> validates the draft first. For a valid draft it assigns the current next
  id and increments it, sets the update time to the current time, sets the creation time
  to the current time when the draft carries none and keeps the draft's creation time
  otherwise, appends the record at the end of the collection, persists, and returns the
  record with the error of the persist step, if any. On an empty collection a draft
  without creation time and not completed yields identifier 1, not completed, and equal
  creation and update times.
\<close>

theorem create_assigns_next_id:
  assumes "Validate d = None"
  shows "\<exists>created r1.
           created = d\<lparr>ID := NextID (storage r),
                        CreatedAt := (if CreatedAt d = 0 then now else CreatedAt d),
                        UpdatedAt := now\<rparr>
           \<and> r1 = r\<lparr>storage := \<lparr>Todos = Todos (storage r) @ [created],
                                  NextID = NextID (storage r) + 1\<rparr>\<rparr>
           \<and> Create j now (Some d) r os
               = (fst (saveUnsafe j r1 os), Some created, r1, snd (saveUnsafe j r1 os))
           \<and> (storage r = NewTodoStorage \<and> CreatedAt d = 0 \<and> \<not> Completed d
                \<longrightarrow> ID created = 1 \<and> \<not> Completed created
                     \<and> CreatedAt created = UpdatedAt created)"
  using assms
  by (cases "storage r")
     (auto simp: Create_def storage_defs Let_def split: prod.splits option.splits)

theorem create_assigns_next_id_witness:
  "Validate groceries = None
   \<and> Create standInJSON 3 (Some groceries) (NewFileBasedTodoRepository todosFile) emptyDisk
       = (None, Some storedGroceries, oneTodo,
          emptyDisk\<lparr>files := (files emptyDisk)(todosFile \<mapsto> oneTodoDocument)\<rparr>)
   \<and> ID storedGroceries = 1 \<and> \<not> Completed storedGroceries
   \<and> CreatedAt storedGroceries = UpdatedAt storedGroceries"
proof -
  from create_assigns_next_id [OF Validate_groceries,
      where r = "NewFileBasedTodoRepository todosFile" and now = 3 and j = standInJSON
        and os = emptyDisk]
  show ?thesis
    by (simp add: sample_valid repo_defs storage_defs sample_defs)
qed

theorem create_keeps_given_creation_time:
  "Validate backdated = None
   \<and> fst (snd (Create standInJSON 10 (Some backdated) (NewFileBasedTodoRepository todosFile)
                 emptyDisk))
       = Some \<lparr>ID = 1, Title = ''Buy groceries'', Description = ''and cheese'',
               Completed = True, CreatedAt = 5, UpdatedAt = 10\<rparr>"
  by (simp add: sample_valid repo_defs storage_defs sample_defs backdated_def)

text \<open>
  C6. Validation reports the first violation: an empty title exactly when the title is
  empty or all white space; otherwise a title too long exactly when the title has more than
  200 bytes; otherwise a description too long exactly when the description has more than
  1000 bytes. A title violation is reported whatever the description is. \<^verbatim>\<open>Create\<close> on a
  draft that fails validation returns that error and changes neither the collection, nor
  the next id, nor the file.
\<close>

theorem validate_first_violation:
  "(Validate t = Some (ValidationError EmptyTitle) \<longleftrightarrow> all_whitespace (Title t))
   \<and> (Validate t = Some (ValidationError TitleTooLong)
        \<longleftrightarrow> \<not> all_whitespace (Title t) \<and> 200 < length (Title t))
   \<and> (Validate t = Some (ValidationError DescriptionTooLong)
        \<longleftrightarrow> \<not> all_whitespace (Title t) \<and> length (Title t) \<le> 200
            \<and> 1000 < length (Description t))
   \<and> (Validate t = None
        \<longleftrightarrow> \<not> all_whitespace (Title t) \<and> length (Title t) \<le> 200
            \<and> length (Description t) \<le> 1000)
   \<and> (\<forall>err. Validate t = Some err \<longrightarrow>
          Create j now (Some t) r os = (Some err, Some t, r, os))"
  by (auto simp: validate_defs Create_def TrimSpace_empty_iff [symmetric])

theorem validate_first_violation_witness:
  "all_whitespace (Title untitled)
   \<and> Validate untitled = Some (ValidationError EmptyTitle)
   \<and> Create standInJSON 10 (Some untitled) (NewFileBasedTodoRepository todosFile) emptyDisk
       = (Some (ValidationError EmptyTitle), Some untitled,
          NewFileBasedTodoRepository todosFile, emptyDisk)"
proof -
  have "all_whitespace (Title untitled)"
    by (simp add: untitled_def all_whitespace_Nil)
  then show ?thesis
    using validate_first_violation
      [of untitled standInJSON 10 "NewFileBasedTodoRepository todosFile" emptyDisk]
    by blast
qed

text \<open>
  C7. When the persist step fails after the change in memory, \<^verbatim>\<open>Create\<close>, \<^verbatim>\<open>Update\<close> and
  \<^verbatim>\<open>Delete\<close> return an I/O error and the repository they leave is the changed one: the new
  record is at the end of the collection and the next id is incremented; the updated
  record is what \<^verbatim>\<open>GetByID\<close> finds; the deleted record is gone from the collection.
\<close>

theorem persist_failure_not_rolled_back:
  "(\<forall>created rc.
      Validate d = None
      \<and> created = d\<lparr>ID := NextID (storage r),
                     CreatedAt := (if CreatedAt d = 0 then now else CreatedAt d),
                     UpdatedAt := now\<rparr>
      \<and> rc = r\<lparr>storage := \<lparr>Todos = Todos (storage r) @ [created],
                               NextID = NextID (storage r) + 1\<rparr>\<rparr>
      \<and> fst (saveUnsafe j rc os) \<noteq> None \<longrightarrow>
        (\<exists>f. fst (Create j now (Some d) r os) = Some (IOError f))
        \<and> fst (snd (snd (Create j now (Some d) r os))) = rc
        \<and> GetAll rc = GetAll r @ [created])
   \<and> (\<forall>old k updated ru.
      Validate d = None \<and> FindTodoByID (storage r) wanted = Inr (old, k)
      \<and> updated = d\<lparr>ID := ID old, CreatedAt := CreatedAt old, UpdatedAt := now\<rparr>
      \<and> ru = r\<lparr>storage := (storage r)\<lparr>Todos := (Todos (storage r))[k := updated]\<rparr>\<rparr>
      \<and> fst (saveUnsafe j ru os) \<noteq> None \<longrightarrow>
        (\<exists>f. fst (Update j now wanted (Some d) r os) = Some (IOError f))
        \<and> fst (snd (snd (Update j now wanted (Some d) r os))) = ru
        \<and> GetByID ru wanted = Inr updated)
   \<and> (\<forall>old k rd.
      FindTodoByID (storage r) wanted = Inr (old, k)
      \<and> rd = r\<lparr>storage := (storage r)\<lparr>Todos := take k (Todos (storage r))
                                                  @ drop (Suc k) (Todos (storage r))\<rparr>\<rparr>
      \<and> fst (saveUnsafe j rd os) \<noteq> None \<longrightarrow>
        (\<exists>f. fst (Delete j wanted r os) = Some (IOError f))
        \<and> fst (snd (Delete j wanted r os)) = rd
        \<and> GetAll rd = take k (GetAll r) @ drop (Suc k) (GetAll r)
        \<and> length (GetAll rd) + 1 = length (GetAll r))"
proof (intro conjI allI impI; (elim conjE)?)
  fix created rc
  assume v: "Validate d = None"
    and c: "created = d\<lparr>ID := NextID (storage r),
                     CreatedAt := (if CreatedAt d = 0 then now else CreatedAt d),
                     UpdatedAt := now\<rparr>"
    and rc: "rc = r\<lparr>storage := \<lparr>Todos = Todos (storage r) @ [created],
                               NextID = NextID (storage r) + 1\<rparr>\<rparr>"
    and s: "fst (saveUnsafe j rc os) \<noteq> None"
  from s obtain err os1 where e: "saveUnsafe j rc os = (Some err, os1)"
    by (cases "saveUnsafe j rc os") auto
  then obtain f where f: "err = IOError f" using saveUnsafe_IOError by blast
  have a: "AddTodo now d (storage r) = (created, storage rc)"
    by (cases "storage r") (simp add: storage_defs Let_def c rc)
  have rc': "r\<lparr>storage := storage rc\<rparr> = rc" by (simp add: rc)
  from v a e rc' have cr: "Create j now (Some d) r os = (Some err, Some created, rc, os1)"
    by (simp add: Create_def)
  show "\<exists>f. fst (Create j now (Some d) r os) = Some (IOError f)" using cr f by simp
  show "fst (snd (snd (Create j now (Some d) r os))) = rc" using cr by simp
  show "GetAll rc = GetAll r @ [created]" by (simp add: GetAll_def GetAllTodos_def rc)
next
  fix old k updated ru
  assume v: "Validate d = None"
    and fd: "FindTodoByID (storage r) wanted = Inr (old, k)"
    and u: "updated = d\<lparr>ID := ID old, CreatedAt := CreatedAt old, UpdatedAt := now\<rparr>"
    and ru: "ru = r\<lparr>storage := (storage r)\<lparr>Todos := (Todos (storage r))[k := updated]\<rparr>\<rparr>"
    and s: "fst (saveUnsafe j ru os) \<noteq> None"
  from s obtain err os1 where e: "saveUnsafe j ru os = (Some err, os1)"
    by (cases "saveUnsafe j ru os") auto
  then obtain f where f: "err = IOError f" using saveUnsafe_IOError by blast
  from v fd e have up: "Update j now wanted (Some d) r os = (Some err, Some updated, ru, os1)"
    by (simp add: Update_def UpdateTodo_def Let_def u ru)
  show "\<exists>f. fst (Update j now wanted (Some d) r os) = Some (IOError f)" using up f by simp
  show "fst (snd (snd (Update j now wanted (Some d) r os))) = ru" using up by simp
  from FindTodoByID_found [OF fd]
  have k: "k < length (Todos (storage r))" "ID old = wanted"
    "\<forall>m < k. ID (Todos (storage r) ! m) \<noteq> wanted" by simp_all
  have "ID updated = wanted" using k(2) by (simp add: u)
  from findFrom_list_update [OF this k(1) k(3), of 0]
  show "GetByID ru wanted = Inr updated"
    by (simp add: GetByID_def FindTodoByID_def ru)
next
  fix old k rd
  assume fd: "FindTodoByID (storage r) wanted = Inr (old, k)"
    and rd: "rd = r\<lparr>storage := (storage r)\<lparr>Todos := take k (Todos (storage r))
                                                  @ drop (Suc k) (Todos (storage r))\<rparr>\<rparr>"
    and s: "fst (saveUnsafe j rd os) \<noteq> None"
  from s obtain err os1 where e: "saveUnsafe j rd os = (Some err, os1)"
    by (cases "saveUnsafe j rd os") auto
  then obtain f where f: "err = IOError f" using saveUnsafe_IOError by blast
  from fd e have de: "Delete j wanted r os = (Some err, rd, os1)"
    by (simp add: Delete_def DeleteTodo_def Let_def rd)
  show "\<exists>f. fst (Delete j wanted r os) = Some (IOError f)" using de f by simp
  show "fst (snd (Delete j wanted r os)) = rd" using de by simp
  show "GetAll rd = take k (GetAll r) @ drop (Suc k) (GetAll r)"
    by (simp add: GetAll_def GetAllTodos_def rd)
  from FindTodoByID_found [OF fd] have "k < length (Todos (storage r))" by simp
  then show "length (GetAll rd) + 1 = length (GetAll r)"
    by (simp add: GetAll_def GetAllTodos_def rd)
qed

theorem persist_failure_not_rolled_back_witness:
  "fst (saveUnsafe standInJSON oneTodo fullDisk) = Some (IOError WriteFailed)
   \<and> fst (Create standInJSON 3 (Some groceries) (NewFileBasedTodoRepository todosFile) fullDisk)
       = Some (IOError WriteFailed)
   \<and> fst (snd (snd (Create standInJSON 3 (Some groceries) (NewFileBasedTodoRepository todosFile)
                      fullDisk))) = oneTodo
   \<and> GetAll oneTodo = [storedGroceries] \<and> NextID (storage oneTodo) = 2
   \<and> fst (Update standInJSON 10 1 (Some backdated) oneTodo fullDisk) = Some (IOError WriteFailed)
   \<and> GetByID (fst (snd (snd (Update standInJSON 10 1 (Some backdated) oneTodo fullDisk)))) 1
       = Inr (backdated\<lparr>ID := 1, CreatedAt := 3, UpdatedAt := 10\<rparr>)
   \<and> fst (Delete standInJSON 1 oneTodo fullDisk) = Some (IOError WriteFailed)
   \<and> GetAll (fst (snd (Delete standInJSON 1 oneTodo fullDisk))) = []"
proof -
  have s: "fst (saveUnsafe standInJSON oneTodo fullDisk) = Some (IOError WriteFailed)"
    by (simp add: repo_defs sample_defs)
  have h: "Validate groceries = None
      \<and> storedGroceries
          = groceries\<lparr>ID := NextID (storage (NewFileBasedTodoRepository todosFile)),
                       CreatedAt := (if CreatedAt groceries = 0 then 3 else CreatedAt groceries),
                       UpdatedAt := 3\<rparr>
      \<and> oneTodo = (NewFileBasedTodoRepository todosFile)
          \<lparr>storage := \<lparr>Todos = Todos (storage (NewFileBasedTodoRepository todosFile))
                                  @ [storedGroceries],
                        NextID = NextID (storage (NewFileBasedTodoRepository todosFile)) + 1\<rparr>\<rparr>
      \<and> fst (saveUnsafe standInJSON oneTodo fullDisk) \<noteq> None"
    using s by (simp add: sample_valid NewFileBasedTodoRepository_def NewTodoStorage_def
        oneTodo_def storedGroceries_def groceries_def)
  note t = persist_failure_not_rolled_back [where d = groceries
      and r = "NewFileBasedTodoRepository todosFile" and now = 3 and j = standInJSON
      and os = fullDisk and wanted = 1]
  from t have "\<forall>created rc.
      Validate groceries = None
      \<and> created = groceries\<lparr>ID := NextID (storage (NewFileBasedTodoRepository todosFile)),
                     CreatedAt := (if CreatedAt groceries = 0 then 3 else CreatedAt groceries),
                     UpdatedAt := 3\<rparr>
      \<and> rc = (NewFileBasedTodoRepository todosFile)
          \<lparr>storage := \<lparr>Todos = Todos (storage (NewFileBasedTodoRepository todosFile)) @ [created],
                        NextID = NextID (storage (NewFileBasedTodoRepository todosFile)) + 1\<rparr>\<rparr>
      \<and> fst (saveUnsafe standInJSON rc fullDisk) \<noteq> None \<longrightarrow>
        (\<exists>f. fst (Create standInJSON 3 (Some groceries) (NewFileBasedTodoRepository todosFile)
                  fullDisk) = Some (IOError f))
        \<and> fst (snd (snd (Create standInJSON 3 (Some groceries)
                           (NewFileBasedTodoRepository todosFile) fullDisk))) = rc
        \<and> GetAll rc = GetAll (NewFileBasedTodoRepository todosFile) @ [created]"
    by (rule conjunct1)
  from this [rule_format, OF h]
  have c: "fst (snd (snd (Create standInJSON 3 (Some groceries)
                           (NewFileBasedTodoRepository todosFile) fullDisk))) = oneTodo"
    and g: "GetAll oneTodo = GetAll (NewFileBasedTodoRepository todosFile) @ [storedGroceries]"
    by simp_all
  have e: "fst (Create standInJSON 3 (Some groceries) (NewFileBasedTodoRepository todosFile) fullDisk)
       = Some (IOError WriteFailed)"
    by (simp add: repo_defs storage_defs sample_defs sample_valid)
  have u: "fst (Update standInJSON 10 1 (Some backdated) oneTodo fullDisk)
        = Some (IOError WriteFailed)
      \<and> GetByID (fst (snd (snd (Update standInJSON 10 1 (Some backdated) oneTodo fullDisk)))) 1
        = Inr (backdated\<lparr>ID := 1, CreatedAt := 3, UpdatedAt := 10\<rparr>)"
    by (simp add: repo_defs storage_defs sample_defs sample_valid backdated_def)
  have d: "fst (Delete standInJSON 1 oneTodo fullDisk) = Some (IOError WriteFailed)
      \<and> GetAll (fst (snd (Delete standInJSON 1 oneTodo fullDisk))) = []"
    by (simp add: repo_defs storage_defs sample_defs)
  from s c g e have "fst (saveUnsafe standInJSON oneTodo fullDisk) = Some (IOError WriteFailed)
      \<and> fst (Create standInJSON 3 (Some groceries) (NewFileBasedTodoRepository todosFile) fullDisk)
        = Some (IOError WriteFailed)
      \<and> fst (snd (snd (Create standInJSON 3 (Some groceries)
            (NewFileBasedTodoRepository todosFile) fullDisk))) = oneTodo
      \<and> GetAll oneTodo = [storedGroceries] \<and> NextID (storage oneTodo) = 2"
    by (simp add: GetAll_def GetAllTodos_def NewFileBasedTodoRepository_def NewTodoStorage_def
        oneTodo_def)
  with u d show ?thesis by (simp only: simp_thms)
qed

text \<open>
  C8. \<^verbatim>\<open>Load\<close> succeeds with the empty collection and next id 1 when the file does not
  exist and when it exists, can be read and is empty. A non-empty file is parsed into the
  collection; when the parse fails, \<^verbatim>\<open>Load\<close> returns an I/O error and keeps the
  repository as it was.
\<close>

theorem load_cases:
  "(files os (filePath r) = None \<longrightarrow>
      Load j r os = (None, r\<lparr>storage := \<lparr>Todos = [], NextID = 1\<rparr>\<rparr>))
   \<and> (files os (filePath r) = Some [] \<and> \<not> read_fails os (filePath r) \<longrightarrow>
      Load j r os = (None, r\<lparr>storage := \<lparr>Todos = [], NextID = 1\<rparr>\<rparr>))
   \<and> (\<forall>data. files os (filePath r) = Some data \<and> data \<noteq> [] \<and> \<not> read_fails os (filePath r) \<longrightarrow>
      Load j r os =
        (case Unmarshal j data of
           None \<Rightarrow> (Some (IOError UnmarshalFailed), r)
         | Some st \<Rightarrow> (None, r\<lparr>storage := st\<rparr>)))"
  by (simp add: Load_def NewTodoStorage_def)

theorem load_cases_witness:
  "Load standInJSON oneTodo emptyDisk = (None, oneTodo\<lparr>storage := \<lparr>Todos = [], NextID = 1\<rparr>\<rparr>)
   \<and> Load standInJSON oneTodo (emptyDisk\<lparr>files := (files emptyDisk)(todosFile \<mapsto> [])\<rparr>)
       = (None, oneTodo\<lparr>storage := \<lparr>Todos = [], NextID = 1\<rparr>\<rparr>)
   \<and> Load standInJSON (NewFileBasedTodoRepository todosFile)
         (emptyDisk\<lparr>files := (files emptyDisk)(todosFile \<mapsto> oneTodoDocument)\<rparr>)
       = (None, oneTodo)
   \<and> Load standInJSON oneTodo (emptyDisk\<lparr>files := (files emptyDisk)(todosFile \<mapsto> ''not json'')\<rparr>)
       = (Some (IOError UnmarshalFailed), oneTodo)"
proof -
  have f: "filePath oneTodo = todosFile" "filePath (NewFileBasedTodoRepository todosFile) = todosFile"
    by (simp_all add: oneTodo_def NewFileBasedTodoRepository_def)
  have 1: "Load standInJSON oneTodo emptyDisk = (None, oneTodo\<lparr>storage := \<lparr>Todos = [], NextID = 1\<rparr>\<rparr>)"
    using load_cases [of emptyDisk oneTodo standInJSON] by (simp add: emptyDisk_def)
  have 2: "Load standInJSON oneTodo (emptyDisk\<lparr>files := (files emptyDisk)(todosFile \<mapsto> [])\<rparr>)
       = (None, oneTodo\<lparr>storage := \<lparr>Todos = [], NextID = 1\<rparr>\<rparr>)"
    using load_cases [of "emptyDisk\<lparr>files := (files emptyDisk)(todosFile \<mapsto> [])\<rparr>" oneTodo standInJSON] f
    by (simp add: emptyDisk_def)
  have 3: "Load standInJSON (NewFileBasedTodoRepository todosFile)
         (emptyDisk\<lparr>files := (files emptyDisk)(todosFile \<mapsto> oneTodoDocument)\<rparr>)
       = (None, oneTodo)"
    using load_cases [of "emptyDisk\<lparr>files := (files emptyDisk)(todosFile \<mapsto> oneTodoDocument)\<rparr>"
        "NewFileBasedTodoRepository todosFile" standInJSON] f
    by (simp add: emptyDisk_def standInJSON_def oneTodoDocument_def emptyStorage_def
        NewFileBasedTodoRepository_def oneTodo_def)
  have 4: "Load standInJSON oneTodo (emptyDisk\<lparr>files := (files emptyDisk)(todosFile \<mapsto> ''not json'')\<rparr>)
       = (Some (IOError UnmarshalFailed), oneTodo)"
    using load_cases [of "emptyDisk\<lparr>files := (files emptyDisk)(todosFile \<mapsto> ''not json'')\<rparr>"
        oneTodo standInJSON] f
    by (simp add: emptyDisk_def standInJSON_def oneTodoDocument_def emptyStorage_def)
  from 1 2 3 4 show ?thesis by simp
qed

text \<open>
  C9. \<^verbatim>\<open>Create\<close> and \<^verbatim>\<open>Update\<close> called with a nil draft return the error "todo cannot be
  nil"; the repository (collection and next id) and the file system are as before.
\<close>

theorem nil_draft_rejected:
  "Create j now None r os = (Some NilTodo, None, r, os)
   \<and> Update j now wanted None r os = (Some NilTodo, None, r, os)"
  by (simp add: Create_def Update_def)

theorem nil_draft_rejected_witness:
  "Create standInJSON 10 None (NewFileBasedTodoRepository todosFile) emptyDisk
     = (Some NilTodo, None, NewFileBasedTodoRepository todosFile, emptyDisk)
   \<and> Update standInJSON 10 1 None (NewFileBasedTodoRepository todosFile) emptyDisk
     = (Some NilTodo, None, NewFileBasedTodoRepository todosFile, emptyDisk)"
  by (rule nil_draft_rejected)

text \<open>
  C10. The service checks the lengths of the title and of the description as they are
  given, before it trims them. With a title of more than 200 bytes or a description of
  more than 1000 bytes \<^verbatim>\<open>CreateTodo\<close> returns a validation error and \<^verbatim>\<open>UpdateTodo\<close>
  returns an error, which is a validation error when the identifier is positive (the
  identifier is checked first); neither stores anything, also when the trimmed title is
  not empty and has at most 200 bytes.
\<close>

theorem service_checks_untrimmed_length:
  assumes "200 < length title \<or> 1000 < length description"
  shows "\<exists>v. validateTodoInput title description = Some (ValidationError v)
           \<and> CreateTodo j now title description r os = (Inl (ValidationError v), r, os)
           \<and> UpdateTodoService j now wanted title description completed r os
               = (Inl (if wanted \<le>s 0 then InvalidID else ValidationError v), r, os)
           \<and> (200 < length title \<and> TrimSpace title \<noteq> [] \<longrightarrow> v = TitleTooLong)
           \<and> (length title \<le> 200 \<and> TrimSpace title \<noteq> [] \<longrightarrow> v = DescriptionTooLong)"
  using assms
  by (auto simp: validateTodoInput_def CreateTodo_def UpdateTodoService_def)

theorem service_checks_untrimmed_length_witness:
  "length paddedTitle = 201 \<and> TrimSpace paddedTitle = ''a''
   \<and> CreateTodo standInJSON 10 paddedTitle ''x'' oneTodo emptyDisk
       = (Inl (ValidationError TitleTooLong), oneTodo, emptyDisk)
   \<and> UpdateTodoService standInJSON 10 1 paddedTitle ''x'' True oneTodo emptyDisk
       = (Inl (ValidationError TitleTooLong), oneTodo, emptyDisk)"
proof -
  have "200 < length paddedTitle \<or> 1000 < length ''x''"
    by (simp add: length_paddedTitle)
  from service_checks_untrimmed_length [OF this, of standInJSON 10 oneTodo emptyDisk 1 True]
  show ?thesis
    by (auto simp: length_paddedTitle TrimSpace_paddedTitle word_sle_eq)
qed

theorem update_service_checks_id_first:
  "200 < length paddedTitle
   \<and> UpdateTodoService standInJSON 10 0 paddedTitle ''x'' True oneTodo emptyDisk
       = (Inl InvalidID, oneTodo, emptyDisk)"
  by (simp add: length_paddedTitle UpdateTodoService_def)

end
